theory Spec2Isabelle
  imports Complex_Main
begin

section \<open>Dashboard workspace ingestion (dashboard-workspaces-ingested.js)\<close>

text \<open>
  A shallow embedding of the service that reads the tab-separated data-ingestion exports,
  joins them on the workspace project id and returns the workspace records.

  Conventions of the embedding:
  \<^item> a JavaScript string is a \<open>string\<close>; the embedding covers ASCII text, so
    \<open>toUpperCase\<close> and the white space that \<open>Number\<close> trims are the ASCII ones;
  \<^item> a JavaScript number is a \<open>jsnum\<close>: \<open>NaN\<close>, the two infinities, or a finite
    double given by its exact rational value (the two zeros are not told apart: nothing
    in the service divides by a number or calls \<open>Object.is\<close>);
  \<^item> a plain object built from \<open>{}\<close> is a map from property names to values; reading a
    property that is not its own falls through to \<open>Object.prototype\<close>;
  \<^item> a \<open>Map\<close> is its list of entries in insertion order, compared by SameValueZero;
  \<^item> a \<open>throw\<close> (every one here is a \<open>TypeError\<close>) or a rejected promise is \<open>Inl\<close>;
  \<^item> \<open>console.log\<close> appends to a list of lines returned beside the result;
  \<^item> the file system is a map from file names to file contents;
  \<^item> \<open>getStudyGapAccession\<close> (dashboard-xml.service.js) and \<open>sortDataByDuoTypes\<close>
    (dashboard-sort.service.js) are parameters.
\<close>

subsection \<open>Values\<close>

datatype jsnum = NaN | PosInf | NegInf | Fin rat

datatype jsval =
    JUndefined
  | JStr string
  | JNum jsnum
  | JArr "string list"
  | JInherited string  \<comment> \<open>the member of \<open>Object.prototype\<close> with that name\<close>

text \<open>What reading a property of one of the constant tables gives.\<close>

datatype key = KUndefined | KStr string | KInherited string

datatype error = TypeError | Rejected

type_synonym obj = "string \<rightharpoonup> jsval"

type_synonym jsmap = "(jsval \<times> jsval) list"

subsection \<open>Strings\<close>

definition TAB :: string where
  "TAB = [CHR 0x09]"

definition CRLF :: string where
  "CRLF = [CHR 0x0D, CHR 0x0A]"

text \<open>\<open>String.prototype.split\<close> with a non-empty separator string.\<close>

fun split_from :: "string \<Rightarrow> string \<Rightarrow> string \<Rightarrow> string list" where
  "split_from cur s [] = [rev cur]"
| "split_from cur s (c # cs) =
     (if s \<noteq> [] \<and> take (length s) (c # cs) = s
      then rev cur # split_from [] s (drop (length s - 1) cs)
      else split_from (c # cur) s cs)"

definition split_str :: "string \<Rightarrow> string \<Rightarrow> string list" where
  "split_str str separator = split_from [] separator str"

text \<open>\<open>Array.prototype.toString\<close>, that is \<open>join(",")\<close>, of an array of strings.\<close>

fun arrayToString :: "string list \<Rightarrow> string" where
  "arrayToString [] = []"
| "arrayToString [x] = x"
| "arrayToString (x # y # ys) = x @ '','' @ arrayToString (y # ys)"

definition lowerCaseLetters :: string where
  "lowerCaseLetters = ''abcdefghijklmnopqrstuvwxyz''"

definition upperCaseLetters :: string where
  "upperCaseLetters = ''ABCDEFGHIJKLMNOPQRSTUVWXYZ''"

definition upperChar :: "char \<Rightarrow> char" where
  "upperChar c =
     (case map_of (zip lowerCaseLetters upperCaseLetters) c of Some u \<Rightarrow> u | None \<Rightarrow> c)"

definition toUpperCase :: "string \<Rightarrow> string" where
  "toUpperCase s = map upperChar s"

text \<open>\<open>value.replace(/,/g, "")\<close>\<close>

definition removeCommas :: "string \<Rightarrow> string" where
  "removeCommas s = filter (\<lambda>c. c \<noteq> CHR '','') s"

subsection \<open>Number(string)\<close>

text \<open>
  \<open>Number\<close> applied to a string is StringToNumber of ECMAScript: trim white space; the
  empty string is 0; a \<open>0x\<close>, \<open>0o\<close> or \<open>0b\<close> literal without sign; or an optional sign and
  \<open>Infinity\<close> or a decimal literal with optional fraction and exponent; anything else is
  \<open>NaN\<close>. The mathematical value is rounded to the nearest double, ties to even.
\<close>

definition isStrWhiteSpaceChar :: "char \<Rightarrow> bool" where
  "isStrWhiteSpaceChar c =
     (c \<in> set [CHR 0x09, CHR 0x0A, CHR 0x0B, CHR 0x0C, CHR 0x0D, CHR 0x20])"

definition trimString :: "string \<Rightarrow> string" where
  "trimString s =
     rev (dropWhile isStrWhiteSpaceChar (rev (dropWhile isStrWhiteSpaceChar s)))"

definition digitValue :: "char \<Rightarrow> int option" where
  "digitValue c =
     map_of (zip ''0123456789abcdef'' [0, 1, 2, 3, 4, 5, 6, 7, 8, 9, 10, 11, 12, 13, 14, 15]
             @ zip ''ABCDEF'' [10, 11, 12, 13, 14, 15]) c"

definition isDigitOf :: "int \<Rightarrow> char \<Rightarrow> bool" where
  "isDigitOf radix c = (case digitValue c of None \<Rightarrow> False | Some d \<Rightarrow> d < radix)"

definition digitsValue :: "int \<Rightarrow> string \<Rightarrow> int" where
  "digitsValue radix ds =
     foldl (\<lambda>a c. a * radix + (case digitValue c of None \<Rightarrow> 0 | Some d \<Rightarrow> d)) 0 ds"

definition pow_int :: "int \<Rightarrow> int \<Rightarrow> rat" where
  "pow_int b k = (if 0 \<le> k then of_int b ^ nat k else 1 / of_int b ^ nat (- k))"

text \<open>The number of binary digits of a positive integer.\<close>

function bitLength :: "int \<Rightarrow> int" where
  "bitLength n = (if n \<le> 0 then 0 else 1 + bitLength (n div 2))"
  by pat_completeness auto
termination
  by (relation "measure nat") auto

declare bitLength.simps [simp del]

text \<open>The integer \<open>e\<close> with \<open>2 ^ e \<le> q < 2 ^ (e + 1)\<close>, for \<open>q > 0\<close>.\<close>

definition ilog2 :: "rat \<Rightarrow> int" where
  "ilog2 q =
     (let (a, b) = quotient_of q;
          k = bitLength a - bitLength b
      in if pow_int 2 k \<le> q then k else k - 1)"

definition roundHalfEven :: "rat \<Rightarrow> int" where
  "roundHalfEven x =
     (let f = \<lfloor>x\<rfloor>; d = x - of_int f
      in if d < 1 / 2 then f else if 1 / 2 < d then f + 1 else if even f then f else f + 1)"

text \<open>The double nearest to a magnitude \<open>q \<ge> 0\<close>, before the overflow check.\<close>

definition roundMagnitude :: "rat \<Rightarrow> rat" where
  "roundMagnitude q =
     (if q = 0 then 0
      else let e = max (ilog2 q) (- 1022); ulp = pow_int 2 (e - 52)
           in of_int (roundHalfEven (q / ulp)) * ulp)"

definition toDouble :: "bool \<Rightarrow> rat \<Rightarrow> jsnum" where
  "toDouble negative q =
     (let r = roundMagnitude q
      in if pow_int 2 1024 \<le> r then (if negative then NegInf else PosInf)
         else Fin (if negative then - r else r))"

text \<open>The exponent part that ends a decimal literal; \<open>None\<close> when the rest is no exponent.\<close>

definition exponentPart :: "string \<Rightarrow> int option" where
  "exponentPart r =
     (case r of
        [] \<Rightarrow> Some 0
      | c # r1 \<Rightarrow>
          if c = CHR ''e'' \<or> c = CHR ''E'' then
            (let negative = (r1 \<noteq> [] \<and> hd r1 = CHR ''-'');
                 ds = (if r1 \<noteq> [] \<and> (hd r1 = CHR ''-'' \<or> hd r1 = CHR ''+'') then tl r1 else r1)
             in if ds \<noteq> [] \<and> list_all (isDigitOf 10) ds
                then Some (if negative then - digitsValue 10 ds else digitsValue 10 ds)
                else None)
          else None)"

text \<open>The mathematical value of a StrUnsignedDecimalLiteral other than \<open>Infinity\<close>.\<close>

definition unsignedDecimal :: "string \<Rightarrow> rat option" where
  "unsignedDecimal u =
     (let intPart = takeWhile (isDigitOf 10) u;
          r1 = dropWhile (isDigitOf 10) u;
          dotted = (r1 \<noteq> [] \<and> hd r1 = CHR ''.'');
          fracPart = (if dotted then takeWhile (isDigitOf 10) (tl r1) else []);
          r2 = (if dotted then dropWhile (isDigitOf 10) (tl r1) else r1)
      in if intPart = [] \<and> fracPart = [] then None
         else case exponentPart r2 of
                None \<Rightarrow> None
              | Some e \<Rightarrow>
                  Some (of_int (digitsValue 10 (intPart @ fracPart))
                          * pow_int 10 (e - int (length fracPart))))"

definition nonDecimalRadix :: "string \<Rightarrow> int option" where
  "nonDecimalRadix t =
     (if take 2 t = ''0x'' \<or> take 2 t = ''0X'' then Some 16
      else if take 2 t = ''0o'' \<or> take 2 t = ''0O'' then Some 8
      else if take 2 t = ''0b'' \<or> take 2 t = ''0B'' then Some 2
      else None)"

definition Number :: "string \<Rightarrow> jsnum" where
  "Number s =
     (let t = trimString s
      in if t = [] then Fin 0
         else case nonDecimalRadix t of
           Some radix \<Rightarrow>
             (let ds = drop 2 t
              in if ds \<noteq> [] \<and> list_all (isDigitOf radix) ds
                 then toDouble False (of_int (digitsValue radix ds)) else NaN)
         | None \<Rightarrow>
             (let negative = (hd t = CHR ''-'');
                  u = (if hd t = CHR ''-'' \<or> hd t = CHR ''+'' then tl t else t)
              in if u = ''Infinity'' then (if negative then NegInf else PosInf)
                 else case unsignedDecimal u of
                        None \<Rightarrow> NaN
                      | Some q \<Rightarrow> toDouble negative q))"

subsection \<open>Truthiness, property reads, Map\<close>

fun truthy :: "jsval \<Rightarrow> bool" where
  "truthy JUndefined = False"
| "truthy (JStr s) = (s \<noteq> [])"
| "truthy (JNum n) = (n \<noteq> NaN \<and> n \<noteq> Fin 0)"
| "truthy (JArr xs) = True"
| "truthy (JInherited n) = True"

text \<open>\<open>v || 0\<close>\<close>

definition orZero :: "jsval \<Rightarrow> jsval" where
  "orZero v = (if truthy v then v else JNum (Fin 0))"

definition objectPrototypeNames :: "string list" where
  "objectPrototypeNames =
     [''constructor'', ''__defineGetter__'', ''__defineSetter__'', ''hasOwnProperty'',
      ''__lookupGetter__'', ''__lookupSetter__'', ''isPrototypeOf'',
      ''propertyIsEnumerable'', ''toString'', ''valueOf'', ''__proto__'',
      ''toLocaleString'']"

text \<open>
  \<open>String(v)\<close> of a member of \<open>Object.prototype\<close>, as Node prints it: the prototype
  itself for \<open>__proto__\<close>, the constructor \<open>Object\<close>, or a native method.
\<close>

definition inheritedToString :: "string \<Rightarrow> string" where
  "inheritedToString n =
     (if n = ''__proto__'' then ''[object Object]''
      else if n = ''constructor'' then ''function Object() { [native code] }''
      else ''function '' @ n @ ''() { [native code] }'')"

text \<open>Reading \<open>table[name]\<close> from a constant table written as an object literal.\<close>

definition tableGet :: "(string \<times> string) list \<Rightarrow> string \<Rightarrow> key" where
  "tableGet table name =
     (case map_of table name of
        Some v \<Rightarrow> KStr v
      | None \<Rightarrow> if name \<in> set objectPrototypeNames then KInherited name else KUndefined)"

text \<open>Reading \<open>row[name]\<close> from an object that started as \<open>{}\<close>.\<close>

definition objGet :: "obj \<Rightarrow> string \<Rightarrow> jsval" where
  "objGet row name =
     (case row name of
        Some v \<Rightarrow> v
      | None \<Rightarrow> if name \<in> set objectPrototypeNames then JInherited name else JUndefined)"

text \<open>The property name a key stands for in \<open>{[key]: value}\<close> and in \<open>row[key]\<close>.\<close>

fun toPropertyKey :: "key \<Rightarrow> string" where
  "toPropertyKey KUndefined = ''undefined''"
| "toPropertyKey (KStr s) = s"
| "toPropertyKey (KInherited n) = inheritedToString n"

fun truthyKey :: "key \<Rightarrow> bool" where
  "truthyKey KUndefined = False"
| "truthyKey (KStr s) = (s \<noteq> [])"
| "truthyKey (KInherited n) = True"

text \<open>
  SameValueZero, the equality of \<open>Map\<close> keys and of \<open>Array.prototype.includes\<close>. Every
  array in the service is freshly made by \<open>split\<close>, so two arrays are never the same.
\<close>

fun sameValueZero :: "jsval \<Rightarrow> jsval \<Rightarrow> bool" where
  "sameValueZero (JArr xs) v = False"
| "sameValueZero v (JArr ys) = False"
| "sameValueZero v w = (v = w)"

fun map_set :: "jsmap \<Rightarrow> jsval \<Rightarrow> jsval \<Rightarrow> jsmap" where
  "map_set [] k v = [(k, v)]"
| "map_set ((k', v') # m) k v =
     (if sameValueZero k' k then (k', v) # m else (k', v') # map_set m k v)"

fun map_get :: "jsmap \<Rightarrow> jsval \<Rightarrow> jsval" where
  "map_get [] k = JUndefined"
| "map_get ((k', v') # m) k = (if sameValueZero k' k then v' else map_get m k)"

fun map_has :: "jsmap \<Rightarrow> jsval \<Rightarrow> bool" where
  "map_has [] k = False"
| "map_has ((k', v') # m) k = (sameValueZero k' k \<or> map_has m k)"

text \<open>\<open>list.includes(v)\<close> for a list of strings.\<close>

definition includesVal :: "string list \<Rightarrow> jsval \<Rightarrow> bool" where
  "includesVal xs v = list_ex (\<lambda>a. sameValueZero (JStr a) v) xs"

text \<open>\<open>Array.prototype.reduce\<close> with an initial value and a callback that may throw.\<close>

fun reduce_from :: "nat \<Rightarrow> ('a \<Rightarrow> 'b \<Rightarrow> nat \<Rightarrow> error + 'a) \<Rightarrow> 'a \<Rightarrow> 'b list \<Rightarrow> error + 'a" where
  "reduce_from i f acc [] = Inr acc"
| "reduce_from i f acc (x # xs) =
     (case f acc x i of Inl e \<Rightarrow> Inl e | Inr acc' \<Rightarrow> reduce_from (Suc i) f acc' xs)"

definition reduce :: "('a \<Rightarrow> 'b \<Rightarrow> nat \<Rightarrow> error + 'a) \<Rightarrow> 'a \<Rightarrow> 'b list \<Rightarrow> error + 'a" where
  "reduce f acc xs = reduce_from 0 f acc xs"

text \<open>\<open>headers[i]\<close>; \<open>None\<close> is \<open>undefined\<close>.\<close>

definition at_index :: "string list \<Rightarrow> nat \<Rightarrow> string option" where
  "at_index xs i = (if i < length xs then Some (xs ! i) else None)"

definition propertyName :: "string option \<Rightarrow> string" where
  "propertyName h = (case h of None \<Rightarrow> ''undefined'' | Some s \<Rightarrow> s)"

subsection \<open>Template variables\<close>

definition fileAnVILDataIngestion :: string where
  "fileAnVILDataIngestion = ''anvil-data-ingestion-attributes.tsv''"

definition fileAnVILDataIngestionAccession :: string where
  "fileAnVILDataIngestionAccession = ''anvil-data-ingestion-attributes-accession.tsv''"

definition fileTerraDataIngestionCounts :: string where
  "fileTerraDataIngestionCounts = ''terra-data-ingestion-attributes-counts.tsv''"

definition fileTerraDataIngestionFileSize :: string where
  "fileTerraDataIngestionFileSize = ''terra-data-ingestion-attributes-file-size.tsv''"

definition ALLOW_LIST_WORKSPACE_FIELD_ARRAY :: "string list" where
  "ALLOW_LIST_WORKSPACE_FIELD_ARRAY = [''consentShortNames'', ''dataTypes'', ''diseases'']"

definition ALLOW_LIST_WORKSPACE_FIELD_NUMBER :: "string list" where
  "ALLOW_LIST_WORKSPACE_FIELD_NUMBER = [''size'', ''samples'', ''subjects'']"

definition ALLOW_LIST_WORKSPACE_ACCESS_PUBLIC :: "string list" where
  "ALLOW_LIST_WORKSPACE_ACCESS_PUBLIC = [''1000G-high-coverage-2019'']"

definition WORKSPACE_CONSORTIUM_DISPLAY_VALUE :: "(string \<times> string) list" where
  "WORKSPACE_CONSORTIUM_DISPLAY_VALUE =
     [(''CCDG'', ''CCDG''),
      (''CMG'', ''CMG''),
      (''EMERGE'', ''eMERGE''),
      (''GTEX'', ''GTEx (v8)''),
      (''NHGRI'', ''NHGRI''),
      (''PAGE'', ''PAGE''),
      (''THOUSANDGENOMES'', ''1000 Genomes'')]"

text \<open>
  The second and fourth argument of \<open>buildKeyValuePair\<close> name a key of
  \<open>INGESTION_HEADERS_TO_WORKSPACE_KEY\<close>; the type has one constructor for each key.
\<close>

datatype ingestion_key =
    CONSENT_SHORT_NAMES | DATA_TYPES | DB_GAP_ID | DISEASES | PROJECT_ID
  | LIBRARY_PROJECT_NAME | SAMPLES | SIZE | SUBJECTS | WORKSPACE

fun INGESTION_HEADERS_TO_WORKSPACE_KEY :: "ingestion_key \<Rightarrow> string" where
  "INGESTION_HEADERS_TO_WORKSPACE_KEY CONSENT_SHORT_NAMES = ''library:dataUseRestriction''"
| "INGESTION_HEADERS_TO_WORKSPACE_KEY DATA_TYPES = ''library:datatype.items''"
| "INGESTION_HEADERS_TO_WORKSPACE_KEY DB_GAP_ID = ''study_accession''"
| "INGESTION_HEADERS_TO_WORKSPACE_KEY DISEASES = ''library:indication''"
| "INGESTION_HEADERS_TO_WORKSPACE_KEY PROJECT_ID = ''name''"
| "INGESTION_HEADERS_TO_WORKSPACE_KEY LIBRARY_PROJECT_NAME = ''library:projectName''"
| "INGESTION_HEADERS_TO_WORKSPACE_KEY SAMPLES = ''Sample Count''"
| "INGESTION_HEADERS_TO_WORKSPACE_KEY SIZE = ''File Size''"
| "INGESTION_HEADERS_TO_WORKSPACE_KEY SUBJECTS = ''library:numSubjects''"
| "INGESTION_HEADERS_TO_WORKSPACE_KEY WORKSPACE = ''Workspace''"

definition HEADERS_TO_WORKSPACE_KEY :: "(string \<times> string) list" where
  "HEADERS_TO_WORKSPACE_KEY =
     [(''ACCESS'', ''access''),
      (INGESTION_HEADERS_TO_WORKSPACE_KEY CONSENT_SHORT_NAMES, ''consentShortNames''),
      (''CONSORTIUM'', ''consortium''),
      (INGESTION_HEADERS_TO_WORKSPACE_KEY DATA_TYPES, ''dataTypes''),
      (INGESTION_HEADERS_TO_WORKSPACE_KEY DB_GAP_ID, ''dbGapId''),
      (''DB_GAP_ID_ACCESSION'', ''dbGapIdAccession''),
      (INGESTION_HEADERS_TO_WORKSPACE_KEY DISEASES, ''diseases''),
      (INGESTION_HEADERS_TO_WORKSPACE_KEY PROJECT_ID, ''projectId''),
      (INGESTION_HEADERS_TO_WORKSPACE_KEY SAMPLES, ''samples''),
      (INGESTION_HEADERS_TO_WORKSPACE_KEY SIZE, ''size''),
      (INGESTION_HEADERS_TO_WORKSPACE_KEY SUBJECTS, ''subjects''),
      (INGESTION_HEADERS_TO_WORKSPACE_KEY WORKSPACE, ''projectId'')]"

subsection \<open>Field coercion\<close>

text \<open>\<open>list.includes(key)\<close> for a list of strings and the result of a table read.\<close>

fun includesKey :: "string list \<Rightarrow> key \<Rightarrow> bool" where
  "includesKey xs (KStr k) = (k \<in> set xs)"
| "includesKey xs _ = False"

definition formatIngestedDatum :: "jsval \<Rightarrow> key \<Rightarrow> error + jsval" where
  "formatIngestedDatum datum key =
     (if key = tableGet HEADERS_TO_WORKSPACE_KEY ''CONSORTIUM'' then
        (case datum of
           JStr s \<Rightarrow>
             (let consortium = toUpperCase s
              in case tableGet WORKSPACE_CONSORTIUM_DISPLAY_VALUE consortium of
                   KStr v \<Rightarrow> Inr (JStr (if v \<noteq> [] then v else consortium))
                 | KInherited n \<Rightarrow> Inr (JInherited n)
                 | KUndefined \<Rightarrow> Inr (JStr consortium))
         | _ \<Rightarrow> Inl TypeError)
      else Inr datum)"

definition buildIngestedDatum :: "jsval \<Rightarrow> key \<Rightarrow> error + jsval" where
  "buildIngestedDatum datum key =
     (case formatIngestedDatum datum key of
        Inl e \<Rightarrow> Inl e
      | Inr v \<Rightarrow>
          if includesKey ALLOW_LIST_WORKSPACE_FIELD_ARRAY key then
            (case v of JStr s \<Rightarrow> Inr (JArr (split_str s '','')) | _ \<Rightarrow> Inl TypeError)
          else if includesKey ALLOW_LIST_WORKSPACE_FIELD_NUMBER key then
            (case v of JStr s \<Rightarrow> Inr (JNum (Number (removeCommas s))) | _ \<Rightarrow> Inl TypeError)
          else Inr v)"

definition getIngestedDatumKeyValuePair :: "jsval \<Rightarrow> string option \<Rightarrow> error + key \<times> jsval" where
  "getIngestedDatumKeyValuePair datum header =
     (let key = tableGet HEADERS_TO_WORKSPACE_KEY (propertyName header)
      in case buildIngestedDatum datum key of
           Inl e \<Rightarrow> Inl e
         | Inr v \<Rightarrow> Inr (key, v))"

definition isHeaderKeyOrValue :: "string option \<Rightarrow> ingestion_key \<Rightarrow> ingestion_key \<Rightarrow> bool" where
  "isHeaderKeyOrValue header keyPair valuePair =
     (let keyExists = (header = Some (INGESTION_HEADERS_TO_WORKSPACE_KEY keyPair));
          valueExists = (header = Some (INGESTION_HEADERS_TO_WORKSPACE_KEY valuePair))
      in keyExists \<or> valueExists)"

subsection \<open>Lookup builder\<close>

text \<open>The object one content row folds into, inside \<open>buildKeyValuePair\<close>.\<close>

definition keyValueRow :: "string \<Rightarrow> string list \<Rightarrow> ingestion_key \<Rightarrow> ingestion_key \<Rightarrow> error + obj" where
  "keyValueRow contentRow headers keyPair valuePair =
     reduce
       (\<lambda>acc datum i.
          let header = at_index headers i
          in if isHeaderKeyOrValue header keyPair valuePair then
               (case getIngestedDatumKeyValuePair (JStr datum) header of
                  Inl e \<Rightarrow> Inl e
                | Inr (key, v) \<Rightarrow> Inr (acc(toPropertyKey key \<mapsto> v)))
             else Inr acc)
       Map.empty
       (split_str contentRow TAB)"

definition buildKeyValuePair :: "string list \<Rightarrow> string list \<Rightarrow> ingestion_key \<Rightarrow> ingestion_key \<Rightarrow> error + jsmap" where
  "buildKeyValuePair contentRows headers keyPair valuePair =
     reduce
       (\<lambda>acc contentRow i.
          case keyValueRow contentRow headers keyPair valuePair of
            Inl e \<Rightarrow> Inl e
          | Inr row \<Rightarrow>
              (let keyKeyPair = tableGet HEADERS_TO_WORKSPACE_KEY (INGESTION_HEADERS_TO_WORKSPACE_KEY keyPair);
                   keyValuePair = tableGet HEADERS_TO_WORKSPACE_KEY (INGESTION_HEADERS_TO_WORKSPACE_KEY valuePair)
               in Inr (map_set acc (objGet row (toPropertyKey keyKeyPair))
                                   (objGet row (toPropertyKey keyValuePair)))))
       []
       (drop 1 contentRows)"

definition buildIngestedHeaders :: "string list \<Rightarrow> string list" where
  "buildIngestedHeaders contentRows = split_str (arrayToString (take 1 contentRows)) TAB"

subsection \<open>Row transformer\<close>

text \<open>The object the content row folds into, at the start of \<open>buildWorkspaceRow\<close>.\<close>

definition ingestedRow :: "string \<Rightarrow> string list \<Rightarrow> error + obj" where
  "ingestedRow contentRow headers =
     reduce
       (\<lambda>acc datum i.
          let header = at_index headers i
          in case getIngestedDatumKeyValuePair (JStr datum) header of
               Inl e \<Rightarrow> Inl e
             | Inr (key, v) \<Rightarrow>
                 Inr (if truthyKey key then acc(toPropertyKey key \<mapsto> v) else acc))
       Map.empty
       (split_str contentRow TAB)"

text \<open>\<open>const [,consortium,] = projectId.split("_")\<close>\<close>

definition secondElement :: "string list \<Rightarrow> jsval" where
  "secondElement xs = (case xs of _ # y # _ \<Rightarrow> JStr y | _ \<Rightarrow> JUndefined)"

definition buildWorkspaceRow ::
  "(jsval \<Rightarrow> error + jsval) \<Rightarrow> string \<Rightarrow> string list \<Rightarrow> jsmap \<Rightarrow> jsmap \<Rightarrow> jsmap \<Rightarrow> error + obj" where
  "buildWorkspaceRow getStudyGapAccession contentRow headers
       sampleCountByProjectId studyIdByProjectId fileSizeByProjectId =
     (case ingestedRow contentRow headers of
        Inl e \<Rightarrow> Inl e
      | Inr row \<Rightarrow>
          (let keyAccess = tableGet HEADERS_TO_WORKSPACE_KEY ''ACCESS'';
               keyConsortium = tableGet HEADERS_TO_WORKSPACE_KEY ''CONSORTIUM'';
               keyProjectId = tableGet HEADERS_TO_WORKSPACE_KEY (INGESTION_HEADERS_TO_WORKSPACE_KEY PROJECT_ID);
               keySamplesCount = tableGet HEADERS_TO_WORKSPACE_KEY (INGESTION_HEADERS_TO_WORKSPACE_KEY SAMPLES);
               keySize = tableGet HEADERS_TO_WORKSPACE_KEY (INGESTION_HEADERS_TO_WORKSPACE_KEY SIZE);
               keyStudyAccession = tableGet HEADERS_TO_WORKSPACE_KEY ''DB_GAP_ID_ACCESSION'';
               keyStudyId = tableGet HEADERS_TO_WORKSPACE_KEY (INGESTION_HEADERS_TO_WORKSPACE_KEY DB_GAP_ID);
               projectId = objGet row (toPropertyKey keyProjectId);
               access = (if includesVal ALLOW_LIST_WORKSPACE_ACCESS_PUBLIC projectId
                         then ''Public'' else ''Private'')
           in case projectId of
                JStr p \<Rightarrow>
                  (let consortium = secondElement (split_str p ''_'')
                   in case buildIngestedDatum consortium (tableGet HEADERS_TO_WORKSPACE_KEY ''CONSORTIUM'') of
                        Inl e \<Rightarrow> Inl e
                      | Inr consortiumDisplayValue \<Rightarrow>
                          (let samplesCount = orZero (map_get sampleCountByProjectId projectId);
                               size = orZero (map_get fileSizeByProjectId projectId);
                               studyId = map_get studyIdByProjectId projectId
                           in case getStudyGapAccession studyId of
                                Inl e \<Rightarrow> Inl e
                              | Inr studyAccession \<Rightarrow>
                                  Inr (row ++
                                       (Map.empty
                                          (toPropertyKey keyAccess \<mapsto> JStr access,
                                           toPropertyKey keyConsortium \<mapsto> consortiumDisplayValue,
                                           toPropertyKey keySamplesCount \<mapsto> samplesCount,
                                           toPropertyKey keySize \<mapsto> size,
                                           toPropertyKey keyStudyAccession \<mapsto> studyAccession,
                                           toPropertyKey keyStudyId \<mapsto> studyId)))))
              | _ \<Rightarrow> Inl TypeError))"

text \<open>
  \<open>Promise.all\<close> over the rows: the records in row order, or a rejection when a row
  rejects (here the one of the first such row).
\<close>

fun promise_all :: "(error + 'a) list \<Rightarrow> error + 'a list" where
  "promise_all [] = Inr []"
| "promise_all (Inl e # ps) = Inl e"
| "promise_all (Inr x # ps) = (case promise_all ps of Inl e \<Rightarrow> Inl e | Inr xs \<Rightarrow> Inr (x # xs))"

definition buildWorkspaces ::
  "(jsval \<Rightarrow> error + jsval) \<Rightarrow> string list \<Rightarrow> string list \<Rightarrow> jsmap \<Rightarrow> jsmap \<Rightarrow> jsmap \<Rightarrow> error + obj list" where
  "buildWorkspaces getStudyGapAccession contentRows headers
       sampleCountByProjectId studyIdByProjectId fileSizeByProjectId =
     promise_all
       (map (\<lambda>contentRow. buildWorkspaceRow getStudyGapAccession contentRow headers
                sampleCountByProjectId studyIdByProjectId fileSizeByProjectId)
            (drop 1 contentRows))"

subsection \<open>File access and the pipeline\<close>

text \<open>The lines of the file, and what was written to the console.\<close>

definition getFileContents :: "(string \<rightharpoonup> string) \<Rightarrow> string \<Rightarrow> string list \<times> string list" where
  "getFileContents fs fileName =
     (case fs fileName of
        Some fileContent \<Rightarrow> (split_str fileContent CRLF, [])
      | None \<Rightarrow> ([], [''Error: file '' @ fileName @ '' cannot be found.'']))"

definition getIngestedData :: "(string \<rightharpoonup> string) \<Rightarrow> string \<Rightarrow> (string list \<times> string list) \<times> string list" where
  "getIngestedData fs fileName =
     (let (contentRows, out) = getFileContents fs fileName;
          headers = buildIngestedHeaders contentRows
      in ((headers, contentRows), out))"

definition getFileSizeByProjectId :: "(string \<rightharpoonup> string) \<Rightarrow> (error + jsmap) \<times> string list" where
  "getFileSizeByProjectId fs =
     (let ((headers, contentRows), out) = getIngestedData fs fileTerraDataIngestionFileSize
      in (buildKeyValuePair contentRows headers WORKSPACE SIZE, out))"

definition getSampleCountByProjectId :: "(string \<rightharpoonup> string) \<Rightarrow> (error + jsmap) \<times> string list" where
  "getSampleCountByProjectId fs =
     (let ((headers, contentRows), out) = getIngestedData fs fileTerraDataIngestionCounts
      in (buildKeyValuePair contentRows headers WORKSPACE SAMPLES, out))"

definition getStudyIdByProjectId :: "(string \<rightharpoonup> string) \<Rightarrow> (error + jsmap) \<times> string list" where
  "getStudyIdByProjectId fs =
     (let ((headers, contentRows), out) = getIngestedData fs fileAnVILDataIngestionAccession
      in (buildKeyValuePair contentRows headers PROJECT_ID DB_GAP_ID, out))"

definition getWorkspaces ::
  "(string \<rightharpoonup> string) \<Rightarrow> (jsval \<Rightarrow> error + jsval) \<Rightarrow> jsmap \<Rightarrow> jsmap \<Rightarrow> jsmap \<Rightarrow> (error + obj list) \<times> string list" where
  "getWorkspaces fs getStudyGapAccession sampleCountByProjectId studyIdByProjectId fileSizeByProjectId =
     (let ((headers, contentRows), out) = getIngestedData fs fileAnVILDataIngestion
      in (buildWorkspaces getStudyGapAccession contentRows headers
            sampleCountByProjectId studyIdByProjectId fileSizeByProjectId, out))"

text \<open>
  The exported operation. An \<open>await\<close> that rejects ends it, with the console lines
  written so far.
\<close>

definition getIngestedWorkspaces ::
  "(string \<rightharpoonup> string) \<Rightarrow> (jsval \<Rightarrow> error + jsval) \<Rightarrow> (obj list \<Rightarrow> key \<Rightarrow> key \<Rightarrow> obj list)
     \<Rightarrow> (error + obj list) \<times> string list" where
  "getIngestedWorkspaces fs getStudyGapAccession sortDataByDuoTypes =
     (case getStudyIdByProjectId fs of
        (Inl e, out1) \<Rightarrow> (Inl e, out1)
      | (Inr studyIdByProjectId, out1) \<Rightarrow>
     (case getSampleCountByProjectId fs of
        (Inl e, out2) \<Rightarrow> (Inl e, out1 @ out2)
      | (Inr sampleCountByProjectId, out2) \<Rightarrow>
     (case getFileSizeByProjectId fs of
        (Inl e, out3) \<Rightarrow> (Inl e, out1 @ out2 @ out3)
      | (Inr fileSizeByProjectId, out3) \<Rightarrow>
     (case getWorkspaces fs getStudyGapAccession sampleCountByProjectId studyIdByProjectId fileSizeByProjectId of
        (Inl e, out4) \<Rightarrow> (Inl e, out1 @ out2 @ out3 @ out4)
      | (Inr workspaces, out4) \<Rightarrow>
          (Inr (sortDataByDuoTypes workspaces
                  (tableGet HEADERS_TO_WORKSPACE_KEY ''CONSORTIUM'')
                  (tableGet HEADERS_TO_WORKSPACE_KEY (INGESTION_HEADERS_TO_WORKSPACE_KEY PROJECT_ID))),
           out1 @ out2 @ out3 @ out4)))))"

subsection \<open>Notions used in the statements\<close>

text \<open>A field of the record a row gives; \<open>None\<close> when the row was rejected.\<close>

definition recordField :: "error + obj \<Rightarrow> string \<Rightarrow> jsval option" where
  "recordField r k = (case r of Inl e \<Rightarrow> None | Inr rec \<Rightarrow> rec k)"

text \<open>The object \<open>workspace\<close> that \<open>buildWorkspaceRow\<close> merges into the row.\<close>

definition derivedFields :: "string \<Rightarrow> jsval \<Rightarrow> jsval \<Rightarrow> jsval \<Rightarrow> jsval \<Rightarrow> jsval \<Rightarrow> obj" where
  "derivedFields access c samples fileSize a studyId =
     Map.empty(''access'' \<mapsto> JStr access, ''consortium'' \<mapsto> c, ''samples'' \<mapsto> samples,
       ''size'' \<mapsto> fileSize, ''dbGapIdAccession'' \<mapsto> a, ''dbGapId'' \<mapsto> studyId)"

text \<open>
  The specification's wording for the consortium: the middle segment of the project id
  split on underscore (there is one when the number of segments is odd).
\<close>

definition middleSegment :: "string list \<Rightarrow> jsval" where
  "middleSegment xs = (if odd (length xs) then JStr (xs ! (length xs div 2)) else JUndefined)"

text \<open>Field Coercion of a text: \<open>buildIngestedDatum\<close> never throws on a string.\<close>

definition coerced :: "string \<Rightarrow> key \<Rightarrow> jsval" where
  "coerced d key = (case buildIngestedDatum (JStr d) key of Inl e \<Rightarrow> JUndefined | Inr v \<Rightarrow> v)"

text \<open>One step of a fold that assigns a property, or leaves the object as it is.\<close>

definition assign :: "(string \<times> jsval) option \<Rightarrow> obj \<Rightarrow> obj" where
  "assign a acc = (case a of None \<Rightarrow> acc | Some (k, v) \<Rightarrow> acc(k \<mapsto> v))"

text \<open>The assignment that the fold of \<open>buildWorkspaceRow\<close> makes for one field of the row.\<close>

definition rowAssign :: "string list \<Rightarrow> string \<Rightarrow> nat \<Rightarrow> (string \<times> jsval) option" where
  "rowAssign headers datum i =
     (let key = tableGet HEADERS_TO_WORKSPACE_KEY (propertyName (at_index headers i))
      in if truthyKey key then Some (toPropertyKey key, coerced datum key) else None)"

text \<open>The canonical field of a column of \<open>INGESTION_HEADERS_TO_WORKSPACE_KEY\<close>.\<close>

definition columnKey :: "ingestion_key \<Rightarrow> key" where
  "columnKey column = tableGet HEADERS_TO_WORKSPACE_KEY (INGESTION_HEADERS_TO_WORKSPACE_KEY column)"

text \<open>
  The value of a content row under a column: Field Coercion of the field at that
  position, \<open>undefined\<close> when the row is too short.
\<close>

definition cell :: "string \<Rightarrow> nat \<Rightarrow> ingestion_key \<Rightarrow> jsval" where
  "cell contentRow i column =
     (let fields = split_str contentRow TAB
      in if i < length fields then coerced (fields ! i) (columnKey column) else JUndefined)"

text \<open>The assignment that the inner fold of \<open>buildKeyValuePair\<close> makes for one field.\<close>

definition kvAssign ::
  "string list \<Rightarrow> ingestion_key \<Rightarrow> ingestion_key \<Rightarrow> string \<Rightarrow> nat \<Rightarrow> (string \<times> jsval) option" where
  "kvAssign headers keyPair valuePair datum i =
     (let header = at_index headers i;
          key = tableGet HEADERS_TO_WORKSPACE_KEY (propertyName header)
      in if isHeaderKeyOrValue header keyPair valuePair
         then Some (toPropertyKey key, coerced datum key) else None)"

text \<open>A number below zero.\<close>

fun negative :: "jsnum \<Rightarrow> bool" where
  "negative NegInf = True"
| "negative (Fin q) = (q < 0)"
| "negative _ = False"

text \<open>
  Export files for an example: a main export with one workspace and its number of
  subjects, and a sample-count export for the same workspace.
\<close>

definition exampleExports :: "string \<rightharpoonup> string" where
  "exampleExports =
     Map.empty
       (fileAnVILDataIngestion \<mapsto>
          ''name'' @ TAB @ ''library:numSubjects'' @ CRLF @ ''AN_CCDG_x'' @ TAB @ ''-3'',
        fileTerraDataIngestionCounts \<mapsto>
          ''Workspace'' @ TAB @ ''Sample Count'' @ CRLF @ ''AN_CCDG_x'' @ TAB @ ''-5'')"

section \<open>Properties\<close>

subsection \<open>Strings and tables\<close>

lemma split_from_nonempty: "split_from cur sep cs \<noteq> []"
  by (induction cur sep cs rule: split_from.induct) auto

lemma arrayToString_Cons: "xs \<noteq> [] \<Longrightarrow> arrayToString (x # xs) = x @ '','' @ arrayToString xs"
  by (cases xs) auto

lemma join_split_from: "arrayToString (split_from cur '','' cs) = rev cur @ cs"
proof (induction cs arbitrary: cur)
  case Nil
  then show ?case by simp
next
  case (Cons c cs)
  show ?case
  proof (cases "c = CHR '',''")
    case True
    then show ?thesis
      using Cons.IH [of "[]"] by (simp add: arrayToString_Cons split_from_nonempty)
  next
    case False
    then show ?thesis
      using Cons.IH [of "c # cur"] by simp
  qed
qed

lemma split_from_no_comma:
  "CHR '','' \<notin> set cur \<Longrightarrow> x \<in> set (split_from cur '','' cs) \<Longrightarrow> CHR '','' \<notin> set x"
proof (induction cs arbitrary: cur)
  case Nil
  then show ?case by simp
next
  case (Cons c cs)
  show ?case
  proof (cases "c = CHR '',''")
    case True
    then show ?thesis
      using Cons.IH [of "[]"] Cons.prems by auto
  next
    case False
    then show ?thesis
      using Cons.IH [of "c # cur"] Cons.prems by auto
  qed
qed

lemma join_split_comma: "arrayToString (split_str s '','') = s"
  by (simp add: split_str_def join_split_from)

lemma split_comma_pieces: "x \<in> set (split_str s '','') \<Longrightarrow> CHR '','' \<notin> set x"
  using split_from_no_comma [of "[]" x s] by (simp add: split_str_def)

lemma upperChar_not_lower: "upperChar c \<notin> set lowerCaseLetters"
  by (auto simp: upperChar_def lowerCaseLetters_def upperCaseLetters_def)

lemma toUpperCase_no_lower: "c \<in> set (toUpperCase s) \<Longrightarrow> c \<notin> set lowerCaseLetters"
  using upperChar_not_lower by (auto simp: toUpperCase_def)

lemma prototype_names_all_lower:
  "list_all (\<lambda>n. list_ex (\<lambda>c. c \<in> set lowerCaseLetters) n) objectPrototypeNames"
  by code_simp

lemma prototype_names_lower:
  "n \<in> set objectPrototypeNames \<Longrightarrow> \<exists>c \<in> set n. c \<in> set lowerCaseLetters"
  using prototype_names_all_lower by (simp add: list_all_iff list_ex_iff)

text \<open>An upper-cased string never names a member of \<open>Object.prototype\<close>.\<close>

lemma toUpperCase_not_inherited: "toUpperCase s \<notin> set objectPrototypeNames"
  using prototype_names_lower [of "toUpperCase s"] toUpperCase_no_lower [of _ s] by blast

lemma display_values_nonempty:
  "map_of WORKSPACE_CONSORTIUM_DISPLAY_VALUE c = Some v \<Longrightarrow> v \<noteq> []"
  by (auto simp: WORKSPACE_CONSORTIUM_DISPLAY_VALUE_def split: if_splits)

lemma key_consortium: "tableGet HEADERS_TO_WORKSPACE_KEY ''CONSORTIUM'' = KStr ''consortium''"
  by (simp add: tableGet_def HEADERS_TO_WORKSPACE_KEY_def)

lemma tableGet_display:
  "tableGet WORKSPACE_CONSORTIUM_DISPLAY_VALUE (toUpperCase s) =
     (case map_of WORKSPACE_CONSORTIUM_DISPLAY_VALUE (toUpperCase s) of
        Some v \<Rightarrow> KStr v | None \<Rightarrow> KUndefined)"
  using toUpperCase_not_inherited [of s] by (simp add: tableGet_def)

subsection \<open>Field coercion\<close>

lemma formatIngestedDatum_consortium:
  "formatIngestedDatum (JStr s) (KStr ''consortium'') =
     Inr (JStr (case map_of WORKSPACE_CONSORTIUM_DISPLAY_VALUE (toUpperCase s) of
                  Some v \<Rightarrow> v | None \<Rightarrow> toUpperCase s))"
  using display_values_nonempty [of "toUpperCase s"]
  by (simp add: formatIngestedDatum_def key_consortium tableGet_display Let_def split: option.splits)

lemma formatIngestedDatum_other:
  "key \<noteq> KStr ''consortium'' \<Longrightarrow> formatIngestedDatum datum key = Inr datum"
  by (simp add: formatIngestedDatum_def key_consortium)

lemma buildIngestedDatum_consortium:
  "buildIngestedDatum (JStr s) (KStr ''consortium'') =
     Inr (JStr (case map_of WORKSPACE_CONSORTIUM_DISPLAY_VALUE (toUpperCase s) of
                  Some v \<Rightarrow> v | None \<Rightarrow> toUpperCase s))"
  by (simp add: buildIngestedDatum_def formatIngestedDatum_consortium
      ALLOW_LIST_WORKSPACE_FIELD_ARRAY_def ALLOW_LIST_WORKSPACE_FIELD_NUMBER_def)

lemma buildIngestedDatum_array:
  "k \<in> set ALLOW_LIST_WORKSPACE_FIELD_ARRAY \<Longrightarrow>
   buildIngestedDatum (JStr s) (KStr k) = Inr (JArr (split_str s '',''))"
  by (auto simp: buildIngestedDatum_def formatIngestedDatum_other ALLOW_LIST_WORKSPACE_FIELD_ARRAY_def)

lemma buildIngestedDatum_number:
  "k \<in> set ALLOW_LIST_WORKSPACE_FIELD_NUMBER \<Longrightarrow>
   buildIngestedDatum (JStr s) (KStr k) = Inr (JNum (Number (removeCommas s)))"
  by (auto simp: buildIngestedDatum_def formatIngestedDatum_other
      ALLOW_LIST_WORKSPACE_FIELD_ARRAY_def ALLOW_LIST_WORKSPACE_FIELD_NUMBER_def)

lemma Number_1234: "Number ''1234'' = Fin 1234"
  by code_simp

text \<open>
  C6. For every raw text and field name, Field Coercion turns a field of the array
  allow-list into the list of pieces between its commas (joining the pieces with commas
  gives the text back, and no piece holds a comma), and a field of the number allow-list
  into \<open>Number\<close> of the text with every comma removed. \<open>"1,234"\<close> as \<open>size\<close> is the number
  1234 and \<open>"a,b,c"\<close> as \<open>dataTypes\<close> is the list \<open>["a", "b", "c"]\<close>.
\<close>

theorem field_coercion_array_number:
  "(k \<in> set ALLOW_LIST_WORKSPACE_FIELD_ARRAY \<longrightarrow>
      buildIngestedDatum (JStr s) (KStr k) = Inr (JArr (split_str s '','')) \<and>
      arrayToString (split_str s '','') = s \<and>
      (\<forall>x \<in> set (split_str s '',''). CHR '','' \<notin> set x)) \<and>
   (k \<in> set ALLOW_LIST_WORKSPACE_FIELD_NUMBER \<longrightarrow>
      buildIngestedDatum (JStr s) (KStr k) = Inr (JNum (Number (removeCommas s))) \<and>
      removeCommas s = filter (\<lambda>c. c \<noteq> CHR '','') s) \<and>
   buildIngestedDatum (JStr ''1,234'') (KStr ''size'') = Inr (JNum (Fin 1234)) \<and>
   buildIngestedDatum (JStr ''a,b,c'') (KStr ''dataTypes'') = Inr (JArr [''a'', ''b'', ''c''])"
proof -
  have "buildIngestedDatum (JStr ''1,234'') (KStr ''size'') = Inr (JNum (Fin 1234))"
    by (simp add: buildIngestedDatum_number ALLOW_LIST_WORKSPACE_FIELD_NUMBER_def
        removeCommas_def Number_1234)
  moreover have "buildIngestedDatum (JStr ''a,b,c'') (KStr ''dataTypes'') =
      Inr (JArr [''a'', ''b'', ''c''])"
    by (simp add: buildIngestedDatum_array ALLOW_LIST_WORKSPACE_FIELD_ARRAY_def split_str_def)
  ultimately show ?thesis
    by (simp add: buildIngestedDatum_array buildIngestedDatum_number join_split_comma
        split_comma_pieces removeCommas_def)
qed

theorem field_coercion_array_number_witness:
  "''diseases'' \<in> set ALLOW_LIST_WORKSPACE_FIELD_ARRAY \<and>
   buildIngestedDatum (JStr ''x,,y'') (KStr ''diseases'') = Inr (JArr [''x'', [], ''y'']) \<and>
   ''samples'' \<in> set ALLOW_LIST_WORKSPACE_FIELD_NUMBER \<and>
   buildIngestedDatum (JStr ''1,234'') (KStr ''samples'') = Inr (JNum (Fin 1234))"
  using field_coercion_array_number [of "''diseases''" "''x,,y''"]
    field_coercion_array_number [of "''samples''" "''1,234''"]
  by (simp add: ALLOW_LIST_WORKSPACE_FIELD_ARRAY_def ALLOW_LIST_WORKSPACE_FIELD_NUMBER_def
      split_str_def removeCommas_def Number_1234)

text \<open>
  C7. For every raw text, Field Coercion under the consortium field upper-cases the text
  and reads the display-name table at it, keeping the upper-cased text when the table has
  no entry; \<open>"gtex"\<close> becomes \<open>"GTEx (v8)"\<close>, and a code the table does not hold (such as
  \<open>"topmed"\<close>) comes out upper-cased.
\<close>

theorem consortium_display_value:
  "formatIngestedDatum (JStr s) (KStr ''consortium'') =
     Inr (JStr (case map_of WORKSPACE_CONSORTIUM_DISPLAY_VALUE (toUpperCase s) of
                  Some v \<Rightarrow> v | None \<Rightarrow> toUpperCase s)) \<and>
   buildIngestedDatum (JStr s) (KStr ''consortium'') = formatIngestedDatum (JStr s) (KStr ''consortium'') \<and>
   (toUpperCase s \<notin> fst ` set WORKSPACE_CONSORTIUM_DISPLAY_VALUE \<longrightarrow>
      buildIngestedDatum (JStr s) (KStr ''consortium'') = Inr (JStr (toUpperCase s))) \<and>
   buildIngestedDatum (JStr ''gtex'') (KStr ''consortium'') = Inr (JStr ''GTEx (v8)'') \<and>
   buildIngestedDatum (JStr ''topmed'') (KStr ''consortium'') = Inr (JStr ''TOPMED'')"
proof -
  have absent: "map_of WORKSPACE_CONSORTIUM_DISPLAY_VALUE (toUpperCase s) = None"
    if "toUpperCase s \<notin> fst ` set WORKSPACE_CONSORTIUM_DISPLAY_VALUE"
    using that by (simp add: map_of_eq_None_iff)
  have "buildIngestedDatum (JStr ''gtex'') (KStr ''consortium'') = Inr (JStr ''GTEx (v8)'')"
    by (simp add: buildIngestedDatum_consortium toUpperCase_def upperChar_def
        lowerCaseLetters_def upperCaseLetters_def WORKSPACE_CONSORTIUM_DISPLAY_VALUE_def)
  moreover have "buildIngestedDatum (JStr ''topmed'') (KStr ''consortium'') = Inr (JStr ''TOPMED'')"
    by (simp add: buildIngestedDatum_consortium toUpperCase_def upperChar_def
        lowerCaseLetters_def upperCaseLetters_def WORKSPACE_CONSORTIUM_DISPLAY_VALUE_def)
  ultimately show ?thesis
    using absent by (simp add: buildIngestedDatum_consortium formatIngestedDatum_consortium)
qed

theorem consortium_display_value_witness:
  "toUpperCase ''Page_x'' \<notin> fst ` set WORKSPACE_CONSORTIUM_DISPLAY_VALUE \<and>
   buildIngestedDatum (JStr ''Page_x'') (KStr ''consortium'') = Inr (JStr ''PAGE_X'') \<and>
   formatIngestedDatum (JStr ''eMerge'') (KStr ''consortium'') = Inr (JStr ''eMERGE'')"
  using consortium_display_value [of "''Page_x''"] consortium_display_value [of "''eMerge''"]
  by (simp add: toUpperCase_def upperChar_def lowerCaseLetters_def upperCaseLetters_def
      WORKSPACE_CONSORTIUM_DISPLAY_VALUE_def)

subsection \<open>Row transformer\<close>

lemma header_keys:
  "tableGet HEADERS_TO_WORKSPACE_KEY ''ACCESS'' = KStr ''access''"
  "tableGet HEADERS_TO_WORKSPACE_KEY ''name'' = KStr ''projectId''"
  "tableGet HEADERS_TO_WORKSPACE_KEY ''Workspace'' = KStr ''projectId''"
  "tableGet HEADERS_TO_WORKSPACE_KEY ''Sample Count'' = KStr ''samples''"
  "tableGet HEADERS_TO_WORKSPACE_KEY ''File Size'' = KStr ''size''"
  "tableGet HEADERS_TO_WORKSPACE_KEY ''DB_GAP_ID_ACCESSION'' = KStr ''dbGapIdAccession''"
  "tableGet HEADERS_TO_WORKSPACE_KEY ''study_accession'' = KStr ''dbGapId''"
  by (simp_all add: tableGet_def HEADERS_TO_WORKSPACE_KEY_def)

lemma includesVal_public:
  "includesVal ALLOW_LIST_WORKSPACE_ACCESS_PUBLIC (JStr p) = (p \<in> set ALLOW_LIST_WORKSPACE_ACCESS_PUBLIC)"
  by (auto simp: includesVal_def ALLOW_LIST_WORKSPACE_ACCESS_PUBLIC_def)

lemma buildWorkspaceRow_unfold:
  "buildWorkspaceRow g contentRow headers sc st fs =
     (case ingestedRow contentRow headers of
        Inl e \<Rightarrow> Inl e
      | Inr row \<Rightarrow>
          (case objGet row ''projectId'' of
             JStr p \<Rightarrow>
               (case buildIngestedDatum (secondElement (split_str p ''_'')) (KStr ''consortium'') of
                  Inl e \<Rightarrow> Inl e
                | Inr c \<Rightarrow>
                    (case g (map_get st (JStr p)) of
                       Inl e \<Rightarrow> Inl e
                     | Inr a \<Rightarrow>
                         Inr (row ++ derivedFields
                                (if p \<in> set ALLOW_LIST_WORKSPACE_ACCESS_PUBLIC then ''Public'' else ''Private'')
                                c (orZero (map_get sc (JStr p))) (orZero (map_get fs (JStr p)))
                                a (map_get st (JStr p)))))
           | _ \<Rightarrow> Inl TypeError))"
  by (simp add: buildWorkspaceRow_def header_keys key_consortium includesVal_public Let_def
      derivedFields_def split: sum.splits jsval.splits)

lemma buildWorkspaceRow_InrD:
  assumes "buildWorkspaceRow g contentRow headers sc st fs = Inr rec"
  shows "\<exists>row p c a.
      ingestedRow contentRow headers = Inr row \<and>
      objGet row ''projectId'' = JStr p \<and>
      buildIngestedDatum (secondElement (split_str p ''_'')) (KStr ''consortium'') = Inr c \<and>
      g (map_get st (JStr p)) = Inr a \<and>
      rec = row ++ derivedFields
              (if p \<in> set ALLOW_LIST_WORKSPACE_ACCESS_PUBLIC then ''Public'' else ''Private'')
              c (orZero (map_get sc (JStr p))) (orZero (map_get fs (JStr p)))
              a (map_get st (JStr p))"
  using assms unfolding buildWorkspaceRow_unfold
  by (auto split: sum.splits jsval.splits)

lemma objGet_projectId: "objGet row ''projectId'' = JStr p \<Longrightarrow> row ''projectId'' = Some (JStr p)"
  by (auto simp: objGet_def objectPrototypeNames_def split: option.splits)

lemma derived_lookup:
  "(row ++ derivedFields ac c sa si a sid) ''projectId'' = row ''projectId''"
  "(row ++ derivedFields ac c sa si a sid) ''access'' = Some (JStr ac)"
  "(row ++ derivedFields ac c sa si a sid) ''consortium'' = Some c"
  "(row ++ derivedFields ac c sa si a sid) ''samples'' = Some sa"
  "(row ++ derivedFields ac c sa si a sid) ''size'' = Some si"
  "(row ++ derivedFields ac c sa si a sid) ''dbGapIdAccession'' = Some a"
  "(row ++ derivedFields ac c sa si a sid) ''dbGapId'' = Some sid"
  by (simp_all add: derivedFields_def map_add_def)

lemma map_get_absent: "\<not> map_has m k \<Longrightarrow> map_get m k = JUndefined"
  by (induction m k rule: map_get.induct) auto

lemma split_from_no_sep:
  "c \<notin> set cs \<Longrightarrow> split_from cur [c] cs = [rev cur @ cs]"
  by (induction cs arbitrary: cur) auto

lemma split_str_no_sep: "c \<notin> set s \<Longrightarrow> split_str s [c] = [s]"
  by (simp add: split_str_def split_from_no_sep)

lemma datum_projectId:
  "getIngestedDatumKeyValuePair (JStr d) (Some ''name'') = Inr (KStr ''projectId'', JStr d)"
  by (simp add: getIngestedDatumKeyValuePair_def propertyName_def header_keys
      buildIngestedDatum_def formatIngestedDatum_other
      ALLOW_LIST_WORKSPACE_FIELD_ARRAY_def ALLOW_LIST_WORKSPACE_FIELD_NUMBER_def)

lemma ingestedRow_name_only:
  "CHR 0x09 \<notin> set p \<Longrightarrow> ingestedRow p [''name''] = Inr (Map.empty(''projectId'' \<mapsto> JStr p))"
  by (simp add: ingestedRow_def TAB_def split_str_no_sep reduce_def at_index_def datum_projectId)

lemma secondElement_none: "CHR ''_'' \<notin> set p \<Longrightarrow> secondElement (split_str p ''_'') = JUndefined"
  by (simp add: split_str_no_sep secondElement_def)

lemma consortium_undefined:
  "buildIngestedDatum JUndefined (KStr ''consortium'') = Inl TypeError"
  by (simp add: buildIngestedDatum_def formatIngestedDatum_def key_consortium)

lemma objGet_upd: "objGet (m(k \<mapsto> v)) k = v"
  by (simp add: objGet_def)

text \<open>
  C8. The derived access is \<open>"Public"\<close> exactly for a project id on the public-access
  allow-list. The code computes that value and then throws: the only id on the list,
  \<open>"1000G-high-coverage-2019"\<close>, has no underscore, so its second segment is
  \<open>undefined\<close> and \<open>undefined.toUpperCase()\<close> is a \<open>TypeError\<close>. A row whose project id
  is on the allow-list therefore never becomes a record, and every record that is
  produced has the access \<open>"Private"\<close>.
\<close>

theorem public_workspace_rejected:
  "buildWorkspaceRow g ''1000G-high-coverage-2019'' [''name''] sc st fs = Inl TypeError \<and>
   (\<forall>row p. ingestedRow contentRow headers = Inr row \<longrightarrow> objGet row ''projectId'' = JStr p \<longrightarrow>
      p \<in> set ALLOW_LIST_WORKSPACE_ACCESS_PUBLIC \<longrightarrow>
      buildWorkspaceRow g contentRow headers sc st fs = Inl TypeError) \<and>
   (\<forall>rec. buildWorkspaceRow g contentRow headers sc st fs = Inr rec \<longrightarrow>
      rec ''access'' = Some (JStr ''Private''))"
proof -
  have "secondElement (split_str p ''_'') = JUndefined" if "p \<in> set ALLOW_LIST_WORKSPACE_ACCESS_PUBLIC" for p
    using that by (auto simp: ALLOW_LIST_WORKSPACE_ACCESS_PUBLIC_def secondElement_none)
  then have general: "buildWorkspaceRow g contentRow headers sc st fs = Inl TypeError"
    if "ingestedRow contentRow headers = Inr row" "objGet row ''projectId'' = JStr p"
       "p \<in> set ALLOW_LIST_WORKSPACE_ACCESS_PUBLIC" for row p g contentRow headers sc st fs
    using that by (simp add: buildWorkspaceRow_unfold consortium_undefined)
  have example: "buildWorkspaceRow g ''1000G-high-coverage-2019'' [''name''] sc st fs = Inl TypeError"
    by (rule general [of _ _ "Map.empty(''projectId'' \<mapsto> JStr ''1000G-high-coverage-2019'')" "''1000G-high-coverage-2019''"])
       (simp_all add: ingestedRow_name_only objGet_upd ALLOW_LIST_WORKSPACE_ACCESS_PUBLIC_def)
  have always_private: "rec ''access'' = Some (JStr ''Private'')"
    if built: "buildWorkspaceRow g contentRow headers sc st fs = Inr rec" for rec
  proof -
    from buildWorkspaceRow_InrD [OF built] obtain row p c a where
      row: "ingestedRow contentRow headers = Inr row"
      and p: "objGet row ''projectId'' = JStr p"
      and rec: "rec = row ++ derivedFields
              (if p \<in> set ALLOW_LIST_WORKSPACE_ACCESS_PUBLIC then ''Public'' else ''Private'')
              c (orZero (map_get sc (JStr p))) (orZero (map_get fs (JStr p)))
              a (map_get st (JStr p))"
      by blast
    have "p \<notin> set ALLOW_LIST_WORKSPACE_ACCESS_PUBLIC"
      using general [OF row p, of g sc st fs] built by auto
    then show ?thesis
      by (simp add: rec derived_lookup)
  qed
  from example general always_private show ?thesis by blast
qed

theorem public_workspace_rejected_witness:
  "ingestedRow ''1000G-high-coverage-2019'' [''Workspace''] =
     Inr (Map.empty(''projectId'' \<mapsto> JStr ''1000G-high-coverage-2019'')) \<and>
   ''1000G-high-coverage-2019'' \<in> set ALLOW_LIST_WORKSPACE_ACCESS_PUBLIC \<and>
   buildWorkspaceRow (\<lambda>s. Inr JUndefined) ''1000G-high-coverage-2019'' [''Workspace''] [] [] [] = Inl TypeError"
proof -
  have row: "ingestedRow ''1000G-high-coverage-2019'' [''Workspace''] =
     Inr (Map.empty(''projectId'' \<mapsto> JStr ''1000G-high-coverage-2019''))"
    by (simp add: ingestedRow_def TAB_def split_str_no_sep reduce_def at_index_def
      getIngestedDatumKeyValuePair_def propertyName_def header_keys
      buildIngestedDatum_def formatIngestedDatum_other
      ALLOW_LIST_WORKSPACE_FIELD_ARRAY_def ALLOW_LIST_WORKSPACE_FIELD_NUMBER_def)
  have mem: "''1000G-high-coverage-2019'' \<in> set ALLOW_LIST_WORKSPACE_ACCESS_PUBLIC"
    by (simp add: ALLOW_LIST_WORKSPACE_ACCESS_PUBLIC_def)
  show ?thesis
    using public_workspace_rejected [of "\<lambda>s. Inr JUndefined" "[]" "[]" "[]" "''1000G-high-coverage-2019''" "[''Workspace'']"]
      row mem by (simp add: objGet_upd)
qed

lemma buildWorkspaceRow_name_only:
  assumes "CHR 0x09 \<notin> set p"
    and "buildIngestedDatum (secondElement (split_str p ''_'')) (KStr ''consortium'') = Inr c"
    and "g (map_get st (JStr p)) = Inr a"
  shows "buildWorkspaceRow g p [''name''] sc st fs =
     Inr (Map.empty(''projectId'' \<mapsto> JStr p) ++ derivedFields
            (if p \<in> set ALLOW_LIST_WORKSPACE_ACCESS_PUBLIC then ''Public'' else ''Private'')
            c (orZero (map_get sc (JStr p))) (orZero (map_get fs (JStr p)))
            a (map_get st (JStr p)))"
  using assms by (simp add: buildWorkspaceRow_unfold ingestedRow_name_only objGet_upd)

lemma consortium_of_example:
  "buildIngestedDatum (secondElement (split_str ''AN_CCDG_something'' ''_'')) (KStr ''consortium'') =
     Inr (JStr ''CCDG'')"
  by (simp add: split_str_def secondElement_def buildIngestedDatum_consortium toUpperCase_def
      upperChar_def lowerCaseLetters_def upperCaseLetters_def WORKSPACE_CONSORTIUM_DISPLAY_VALUE_def)

text \<open>
  C5, as amended. For every content row that becomes a record, the project id split on
  underscore has a second segment, and the derived consortium is Field Coercion's
  consortium rule applied to that second segment; for the project id
  \<open>"AN_CCDG_something"\<close> the consortium is \<open>"CCDG"\<close> and the access is \<open>"Private"\<close>.
\<close>

theorem derived_consortium:
  "(buildWorkspaceRow g contentRow headers sc st fs = Inr rec \<longrightarrow>
      rec ''projectId'' = Some (JStr p) \<longrightarrow>
      (\<exists>segment. secondElement (split_str p ''_'') = JStr segment \<and>
         buildIngestedDatum (JStr segment) (KStr ''consortium'') = Inr (the (rec ''consortium'')) \<and>
         rec ''consortium'' =
           Some (JStr (case map_of WORKSPACE_CONSORTIUM_DISPLAY_VALUE (toUpperCase segment) of
                         Some v \<Rightarrow> v | None \<Rightarrow> toUpperCase segment)))) \<and>
   recordField (buildWorkspaceRow (\<lambda>studyId. Inr JUndefined) ''AN_CCDG_something'' [''name''] sc st fs)
     ''consortium'' = Some (JStr ''CCDG'') \<and>
   recordField (buildWorkspaceRow (\<lambda>studyId. Inr JUndefined) ''AN_CCDG_something'' [''name''] sc st fs)
     ''access'' = Some (JStr ''Private'')"
proof -
  have general: "\<exists>segment. secondElement (split_str p ''_'') = JStr segment \<and>
         buildIngestedDatum (JStr segment) (KStr ''consortium'') = Inr (the (rec ''consortium'')) \<and>
         rec ''consortium'' =
           Some (JStr (case map_of WORKSPACE_CONSORTIUM_DISPLAY_VALUE (toUpperCase segment) of
                         Some v \<Rightarrow> v | None \<Rightarrow> toUpperCase segment))"
    if built: "buildWorkspaceRow g contentRow headers sc st fs = Inr rec"
      and pid: "rec ''projectId'' = Some (JStr p)"
  proof -
    from buildWorkspaceRow_InrD [OF built] obtain row q c a where
      q: "objGet row ''projectId'' = JStr q"
      and c: "buildIngestedDatum (secondElement (split_str q ''_'')) (KStr ''consortium'') = Inr c"
      and rec: "rec = row ++ derivedFields
              (if q \<in> set ALLOW_LIST_WORKSPACE_ACCESS_PUBLIC then ''Public'' else ''Private'')
              c (orZero (map_get sc (JStr q))) (orZero (map_get fs (JStr q)))
              a (map_get st (JStr q))"
      by blast
    have "q = p"
      using pid objGet_projectId [OF q] by (simp add: rec derived_lookup)
    from c obtain segment where seg: "secondElement (split_str q ''_'') = JStr segment"
      by (cases "secondElement (split_str q ''_'')")
        (simp_all add: buildIngestedDatum_def formatIngestedDatum_def key_consortium)
    show ?thesis
      using c seg \<open>q = p\<close> by (auto simp: rec derived_lookup buildIngestedDatum_consortium)
  qed
  have ex: "buildWorkspaceRow (\<lambda>studyId. Inr JUndefined) ''AN_CCDG_something'' [''name''] sc st fs =
      Inr (Map.empty(''projectId'' \<mapsto> JStr ''AN_CCDG_something'') ++ derivedFields ''Private''
        (JStr ''CCDG'') (orZero (map_get sc (JStr ''AN_CCDG_something'')))
        (orZero (map_get fs (JStr ''AN_CCDG_something''))) JUndefined
        (map_get st (JStr ''AN_CCDG_something'')))"
    by (subst buildWorkspaceRow_name_only [OF _ consortium_of_example])
       (simp_all add: ALLOW_LIST_WORKSPACE_ACCESS_PUBLIC_def)
  show ?thesis
    using general by (simp add: ex recordField_def derived_lookup)
qed

theorem derived_consortium_witness:
  "\<exists>rec. buildWorkspaceRow (\<lambda>studyId. Inr JUndefined) ''AnVIL_CCDG_Broad_CVD_AF'' [''name''] [] [] [] = Inr rec \<and>
     rec ''projectId'' = Some (JStr ''AnVIL_CCDG_Broad_CVD_AF'') \<and>
     secondElement (split_str ''AnVIL_CCDG_Broad_CVD_AF'' ''_'') = JStr ''CCDG'' \<and>
     rec ''consortium'' = Some (JStr ''CCDG'')"
proof -
  let ?p = "''AnVIL_CCDG_Broad_CVD_AF''"
  have seg: "secondElement (split_str ?p ''_'') = JStr ''CCDG''"
    by (simp add: split_str_def secondElement_def)
  have c: "buildIngestedDatum (secondElement (split_str ?p ''_'')) (KStr ''consortium'') = Inr (JStr ''CCDG'')"
    by (simp add: seg buildIngestedDatum_consortium toUpperCase_def
      upperChar_def lowerCaseLetters_def upperCaseLetters_def WORKSPACE_CONSORTIUM_DISPLAY_VALUE_def)
  obtain rec where built:
    "buildWorkspaceRow (\<lambda>studyId. Inr JUndefined) ?p [''name''] [] [] [] = Inr rec"
    and pid: "rec ''projectId'' = Some (JStr ?p)"
    using buildWorkspaceRow_name_only [OF _ c, of "\<lambda>studyId. Inr JUndefined" "[]" JUndefined "[]" "[]"]
    by (simp add: derived_lookup)
  from derived_consortium [of "\<lambda>studyId. Inr JUndefined" ?p "[''name'']" "[]" "[]" "[]" rec ?p] built pid seg
  have "rec ''consortium'' = Some (JStr ''CCDG'')"
    by (simp add: toUpperCase_def upperChar_def lowerCaseLetters_def upperCaseLetters_def
        WORKSPACE_CONSORTIUM_DISPLAY_VALUE_def)
  with built pid seg show ?thesis by blast
qed

text \<open>
  C5 as stated takes the middle segment. For the five segments of
  \<open>"AnVIL_CCDG_Broad_CVD_AF"\<close> the middle one is \<open>"Broad"\<close>, coerced to \<open>"BROAD"\<close>, while
  the record holds \<open>"CCDG"\<close>, from the second.
\<close>

theorem middle_segment_counterexample:
  "recordField (buildWorkspaceRow (\<lambda>studyId. Inr JUndefined) ''AnVIL_CCDG_Broad_CVD_AF'' [''name''] [] [] [])
     ''consortium'' = Some (JStr ''CCDG'') \<and>
   buildIngestedDatum (middleSegment (split_str ''AnVIL_CCDG_Broad_CVD_AF'' ''_'')) (KStr ''consortium'') =
     Inr (JStr ''BROAD'')"
proof -
  let ?p = "''AnVIL_CCDG_Broad_CVD_AF''"
  have seg: "secondElement (split_str ?p ''_'') = JStr ''CCDG''"
    by (simp add: split_str_def secondElement_def)
  have c: "buildIngestedDatum (secondElement (split_str ?p ''_'')) (KStr ''consortium'') = Inr (JStr ''CCDG'')"
    by (simp add: seg buildIngestedDatum_consortium toUpperCase_def
      upperChar_def lowerCaseLetters_def upperCaseLetters_def WORKSPACE_CONSORTIUM_DISPLAY_VALUE_def)
  have code: "recordField (buildWorkspaceRow (\<lambda>studyId. Inr JUndefined) ?p [''name''] [] [] [])
     ''consortium'' = Some (JStr ''CCDG'')"
    using buildWorkspaceRow_name_only [OF _ c, of "\<lambda>studyId. Inr JUndefined" "[]" JUndefined "[]" "[]"]
    by (simp add: recordField_def derived_lookup)
  have mid: "middleSegment (split_str ?p ''_'') = JStr ''Broad''"
    by (simp add: split_str_def middleSegment_def)
  have "buildIngestedDatum (middleSegment (split_str ?p ''_'')) (KStr ''consortium'') = Inr (JStr ''BROAD'')"
    by (simp add: mid buildIngestedDatum_consortium toUpperCase_def
      upperChar_def lowerCaseLetters_def upperCaseLetters_def WORKSPACE_CONSORTIUM_DISPLAY_VALUE_def)
  with code show ?thesis by simp
qed

lemma orZero_cases:
  "orZero v \<noteq> JUndefined" "orZero v \<noteq> JNum NaN"
  "v \<in> {JUndefined, JNum NaN, JStr [], JNum (Fin 0)} \<Longrightarrow> orZero v = JNum (Fin 0)"
  "\<not> truthy v \<Longrightarrow> orZero v = JNum (Fin 0)"
  "truthy v \<Longrightarrow> orZero v = v"
  by (auto simp: orZero_def)

lemma falsy_iff: "\<not> truthy v \<longleftrightarrow> v \<in> {JUndefined, JNum NaN, JStr [], JNum (Fin 0)}"
  by (cases v) auto

lemma buildWorkspaceRow_samples_size:
  assumes built: "buildWorkspaceRow g contentRow headers sc st fs = Inr rec"
    and pid: "rec ''projectId'' = Some pid"
  shows "rec ''samples'' = Some (orZero (map_get sc pid))"
    and "rec ''size'' = Some (orZero (map_get fs pid))"
proof -
  from buildWorkspaceRow_InrD [OF built] obtain row q c a where
    q: "objGet row ''projectId'' = JStr q"
    and rec: "rec = row ++ derivedFields
            (if q \<in> set ALLOW_LIST_WORKSPACE_ACCESS_PUBLIC then ''Public'' else ''Private'')
            c (orZero (map_get sc (JStr q))) (orZero (map_get fs (JStr q)))
            a (map_get st (JStr q))"
    by blast
  have "pid = JStr q"
    using pid objGet_projectId [OF q] by (simp add: rec derived_lookup)
  then show "rec ''samples'' = Some (orZero (map_get sc pid))"
    and "rec ''size'' = Some (orZero (map_get fs pid))"
    by (simp_all add: rec derived_lookup)
qed

text \<open>
  C9. For every content row that becomes a record: when the sample-count lookup has no
  entry for the row's project id, the record's \<open>samples\<close> is the number 0, and when the
  file-size lookup has none, the record's \<open>size\<close> is the number 0.
\<close>

theorem missing_lookup_entry_is_zero:
  assumes "buildWorkspaceRow g contentRow headers sc st fs = Inr rec"
    and "rec ''projectId'' = Some pid"
  shows "(\<not> map_has sc pid \<longrightarrow> rec ''samples'' = Some (JNum (Fin 0))) \<and>
         (\<not> map_has fs pid \<longrightarrow> rec ''size'' = Some (JNum (Fin 0)))"
  using buildWorkspaceRow_samples_size [OF assms]
  by (simp add: map_get_absent orZero_def)

theorem missing_lookup_entry_is_zero_witness:
  "\<exists>rec. buildWorkspaceRow (\<lambda>studyId. Inr JUndefined) ''AN_CCDG_x'' [''name''] [] [] [] = Inr rec \<and>
     rec ''projectId'' = Some (JStr ''AN_CCDG_x'') \<and>
     \<not> map_has [] (JStr ''AN_CCDG_x'') \<and>
     rec ''samples'' = Some (JNum (Fin 0)) \<and> rec ''size'' = Some (JNum (Fin 0))"
proof -
  let ?p = "''AN_CCDG_x''"
  have c: "buildIngestedDatum (secondElement (split_str ?p ''_'')) (KStr ''consortium'') = Inr (JStr ''CCDG'')"
    by (simp add: split_str_def secondElement_def buildIngestedDatum_consortium toUpperCase_def
      upperChar_def lowerCaseLetters_def upperCaseLetters_def WORKSPACE_CONSORTIUM_DISPLAY_VALUE_def)
  obtain rec where built:
    "buildWorkspaceRow (\<lambda>studyId. Inr JUndefined) ?p [''name''] [] [] [] = Inr rec"
    and pid: "rec ''projectId'' = Some (JStr ?p)"
    using buildWorkspaceRow_name_only [OF _ c, of "\<lambda>studyId. Inr JUndefined" "[]" JUndefined "[]" "[]"]
    by (simp add: derived_lookup)
  from missing_lookup_entry_is_zero [OF built pid]
  have "rec ''samples'' = Some (JNum (Fin 0)) \<and> rec ''size'' = Some (JNum (Fin 0))"
    by simp
  with built pid show ?thesis by auto
qed

text \<open>
  C10. In every record a row becomes, \<open>samples\<close> and \<open>size\<close> are present and are neither
  \<open>undefined\<close> nor \<open>NaN\<close>: a falsy value under the project id in the lookup (\<open>undefined\<close>,
  \<open>NaN\<close>, the empty string, 0) is replaced by the number 0.
\<close>

theorem falsy_lookup_value_is_zero:
  assumes "buildWorkspaceRow g contentRow headers sc st fs = Inr rec"
    and "rec ''projectId'' = Some pid"
  shows "rec ''samples'' \<noteq> None \<and> rec ''samples'' \<noteq> Some JUndefined \<and> rec ''samples'' \<noteq> Some (JNum NaN) \<and>
         rec ''size'' \<noteq> None \<and> rec ''size'' \<noteq> Some JUndefined \<and> rec ''size'' \<noteq> Some (JNum NaN) \<and>
         (map_get sc pid \<in> {JUndefined, JNum NaN, JStr [], JNum (Fin 0)} \<longrightarrow>
            rec ''samples'' = Some (JNum (Fin 0))) \<and>
         (map_get fs pid \<in> {JUndefined, JNum NaN, JStr [], JNum (Fin 0)} \<longrightarrow>
            rec ''size'' = Some (JNum (Fin 0))) \<and>
         (\<not> truthy (map_get sc pid) \<longrightarrow> rec ''samples'' = Some (JNum (Fin 0))) \<and>
         (\<not> truthy (map_get fs pid) \<longrightarrow> rec ''size'' = Some (JNum (Fin 0)))"
  using buildWorkspaceRow_samples_size [OF assms] orZero_cases(1,2)
  by (auto simp: orZero_def)

theorem falsy_lookup_value_is_zero_witness:
  "\<exists>rec. buildWorkspaceRow (\<lambda>studyId. Inr JUndefined) ''AN_CCDG_x'' [''name'']
       [(JStr ''AN_CCDG_x'', JNum NaN)] [] [(JStr ''AN_CCDG_x'', JStr [])] = Inr rec \<and>
     rec ''projectId'' = Some (JStr ''AN_CCDG_x'') \<and>
     map_get [(JStr ''AN_CCDG_x'', JNum NaN)] (JStr ''AN_CCDG_x'') = JNum NaN \<and>
     buildIngestedDatum (JStr ''n/a'') (KStr ''samples'') = Inr (JNum NaN) \<and>
     map_get [(JStr ''AN_CCDG_x'', JStr [])] (JStr ''AN_CCDG_x'') = JStr [] \<and>
     rec ''samples'' = Some (JNum (Fin 0)) \<and> rec ''size'' = Some (JNum (Fin 0))"
proof -
  let ?p = "''AN_CCDG_x''"
  have c: "buildIngestedDatum (secondElement (split_str ?p ''_'')) (KStr ''consortium'') = Inr (JStr ''CCDG'')"
    by (simp add: split_str_def secondElement_def buildIngestedDatum_consortium toUpperCase_def
      upperChar_def lowerCaseLetters_def upperCaseLetters_def WORKSPACE_CONSORTIUM_DISPLAY_VALUE_def)
  obtain rec where built:
    "buildWorkspaceRow (\<lambda>studyId. Inr JUndefined) ?p [''name'']
       [(JStr ?p, JNum NaN)] [] [(JStr ?p, JStr [])] = Inr rec"
    and pid: "rec ''projectId'' = Some (JStr ?p)"
    using buildWorkspaceRow_name_only [OF _ c, of "\<lambda>studyId. Inr JUndefined" "[]" JUndefined
        "[(JStr ?p, JNum NaN)]" "[(JStr ?p, JStr [])]"]
    by (simp add: derived_lookup)
  have nan: "buildIngestedDatum (JStr ''n/a'') (KStr ''samples'') = Inr (JNum NaN)"
    by code_simp
  from falsy_lookup_value_is_zero [OF built pid]
  have "rec ''samples'' = Some (JNum (Fin 0)) \<and> rec ''size'' = Some (JNum (Fin 0))"
    by simp
  with built pid nan show ?thesis by auto
qed

subsection \<open>Folds of assignments\<close>

lemma buildIngestedDatum_text: "buildIngestedDatum (JStr d) key = Inr (coerced d key)"
proof (cases "key = KStr ''consortium''")
  case True
  then show ?thesis by (simp add: coerced_def buildIngestedDatum_consortium)
next
  case False
  then show ?thesis
    by (simp add: coerced_def buildIngestedDatum_def formatIngestedDatum_other)
qed

lemma getIngestedDatumKeyValuePair_text:
  "getIngestedDatumKeyValuePair (JStr d) h =
     Inr (tableGet HEADERS_TO_WORKSPACE_KEY (propertyName h),
          coerced d (tableGet HEADERS_TO_WORKSPACE_KEY (propertyName h)))"
  by (simp add: getIngestedDatumKeyValuePair_def buildIngestedDatum_text Let_def)

lemma reduce_from_pure:
  assumes "\<And>acc x i. f acc x i = Inr (h acc x i)"
  shows "\<exists>r. reduce_from n f acc xs = Inr r"
  by (induction xs arbitrary: n acc) (simp_all add: assms)

lemma reduce_from_foldl:
  assumes "\<And>acc x i. f acc x i = Inr (h acc x)"
  shows "reduce_from n f acc xs = Inr (foldl h acc xs)"
  by (induction xs arbitrary: n acc) (simp_all add: assms)

text \<open>
  A fold of assignments: a property that no step assigns keeps its value; a property
  holds what the last step that assigns it wrote; and whatever a property holds at the
  end, it held at the start or some step wrote.
\<close>

lemma reduce_from_assign_untouched:
  assumes r: "reduce_from n (\<lambda>acc x i. Inr (assign (asg x i) acc)) acc xs = Inr r"
    and none: "\<And>j v. j < length xs \<Longrightarrow> asg (xs ! j) (n + j) \<noteq> Some (k, v)"
  shows "r k = acc k"
  using r none
proof (induction xs arbitrary: n acc)
  case Nil
  then show ?case by simp
next
  case (Cons x xs)
  have step: "reduce_from (Suc n) (\<lambda>acc x i. Inr (assign (asg x i) acc)) (assign (asg x n) acc) xs = Inr r"
    using Cons.prems(1) by simp
  have "asg x n \<noteq> Some (k, v)" for v
    using Cons.prems(2) [of 0 v] by simp
  then have here: "assign (asg x n) acc k = acc k"
    by (auto simp: assign_def split: option.splits)
  have "r k = assign (asg x n) acc k"
  proof (rule Cons.IH [OF step])
    fix j v assume "j < length xs"
    then show "asg (xs ! j) (Suc n + j) \<noteq> Some (k, v)"
      using Cons.prems(2) [of "Suc j" v] by simp
  qed
  with here show ?case by simp
qed

lemma reduce_from_assign_last:
  assumes r: "reduce_from n (\<lambda>acc x i. Inr (assign (asg x i) acc)) acc xs = Inr r"
    and j: "j < length xs" "asg (xs ! j) (n + j) = Some (k, v)"
    and later: "\<And>j' v'. j < j' \<Longrightarrow> j' < length xs \<Longrightarrow> asg (xs ! j') (n + j') \<noteq> Some (k, v')"
  shows "r k = Some v"
  using r j later
proof (induction xs arbitrary: n acc j)
  case Nil
  then show ?case by simp
next
  case (Cons x xs)
  have step: "reduce_from (Suc n) (\<lambda>acc x i. Inr (assign (asg x i) acc)) (assign (asg x n) acc) xs = Inr r"
    using Cons.prems(1) by simp
  show ?case
  proof (cases j)
    case 0
    then have here: "assign (asg x n) acc k = Some v"
      using Cons.prems(3) by (simp add: assign_def)
    have "r k = assign (asg x n) acc k"
    proof (rule reduce_from_assign_untouched [OF step])
      fix j' v' assume "j' < length xs"
      then show "asg (xs ! j') (Suc n + j') \<noteq> Some (k, v')"
        using Cons.prems(4) [of "Suc j'" v'] 0 by simp
    qed
    with here show ?thesis by simp
  next
    case (Suc i)
    show ?thesis
    proof (rule Cons.IH [OF step, of i])
      show "i < length xs" using Cons.prems(2) Suc by simp
      show "asg (xs ! i) (Suc n + i) = Some (k, v)" using Cons.prems(3) Suc by simp
      fix j' v' assume "i < j'" "j' < length xs"
      then show "asg (xs ! j') (Suc n + j') \<noteq> Some (k, v')"
        using Cons.prems(4) [of "Suc j'" v'] Suc by simp
    qed
  qed
qed

lemma reduce_from_assign_source:
  assumes r: "reduce_from n (\<lambda>acc x i. Inr (assign (asg x i) acc)) acc xs = Inr r"
  shows "r k = acc k \<or> (\<exists>j v. j < length xs \<and> asg (xs ! j) (n + j) = Some (k, v) \<and> r k = Some v)"
  using r
proof (induction xs arbitrary: n acc)
  case Nil
  then show ?case by simp
next
  case (Cons x xs)
  have step: "reduce_from (Suc n) (\<lambda>acc x i. Inr (assign (asg x i) acc)) (assign (asg x n) acc) xs = Inr r"
    using Cons.prems(1) by simp
  from Cons.IH [OF step] consider
    (keep) "r k = assign (asg x n) acc k"
    | (later) j v where "j < length xs" "asg (xs ! j) (Suc n + j) = Some (k, v)" "r k = Some v"
    by blast
  then show ?case
  proof cases
    case keep
    show ?thesis
    proof (cases "\<exists>v. asg x n = Some (k, v)")
      case True
      then obtain v where "asg x n = Some (k, v)" by blast
      then have "asg ((x # xs) ! 0) (n + 0) = Some (k, v) \<and> r k = Some v"
        using keep by (simp add: assign_def)
      then show ?thesis by (intro disjI2 exI [of _ 0] exI [of _ v]) simp
    next
      case False
      then have "assign (asg x n) acc k = acc k"
        by (auto simp: assign_def split: option.splits)
      with keep show ?thesis by simp
    qed
  next
    case later
    then have "Suc j < length (x # xs) \<and> asg ((x # xs) ! Suc j) (n + Suc j) = Some (k, v) \<and> r k = Some v"
      by simp
    then show ?thesis by blast
  qed
qed

subsection \<open>Round trip of the coerced fields\<close>

lemma ingestedRow_assign:
  "ingestedRow contentRow headers =
     reduce_from 0 (\<lambda>acc datum i. Inr (assign (rowAssign headers datum i) acc)) Map.empty
       (split_str contentRow TAB)"
proof -
  have "(\<lambda>acc datum i.
          let header = at_index headers i
          in case getIngestedDatumKeyValuePair (JStr datum) header of
               Inl e \<Rightarrow> Inl e
             | Inr (key, v) \<Rightarrow>
                 Inr (if truthyKey key then acc(toPropertyKey key \<mapsto> v) else acc)) =
        (\<lambda>acc datum i. Inr (assign (rowAssign headers datum i) acc))"
    by (intro ext) (simp add: getIngestedDatumKeyValuePair_text rowAssign_def assign_def Let_def)
  then show ?thesis
    by (simp add: ingestedRow_def reduce_def)
qed

lemma ingestedRow_total: "\<exists>row. ingestedRow contentRow headers = Inr row"
  unfolding ingestedRow_assign by (rule reduce_from_pure) simp

lemma header_values:
  "map_of HEADERS_TO_WORKSPACE_KEY h = Some k \<Longrightarrow>
     k \<in> {''access'', ''consentShortNames'', ''consortium'', ''dataTypes'', ''dbGapId'',
           ''dbGapIdAccession'', ''diseases'', ''projectId'', ''samples'', ''size'', ''subjects''}"
  by (auto simp: HEADERS_TO_WORKSPACE_KEY_def split: if_splits)

lemma inheritedToString_hd: "hd (inheritedToString n) \<in> {CHR ''['', CHR ''f''}"
  by (simp add: inheritedToString_def)

lemma header_value_not_inherited:
  assumes "map_of HEADERS_TO_WORKSPACE_KEY h = Some k"
  shows "inheritedToString n \<noteq> k"
  using header_values [OF assms] inheritedToString_hd [of n] by auto

lemma header_value_nonempty:
  "map_of HEADERS_TO_WORKSPACE_KEY h = Some k \<Longrightarrow> k \<noteq> []"
  using header_values [of h k] by auto

lemma rowAssign_own:
  assumes "i < length headers" "map_of HEADERS_TO_WORKSPACE_KEY (headers ! i) = Some k"
  shows "rowAssign headers d i = Some (k, coerced d (KStr k))"
  using assms header_value_nonempty [OF assms(2)]
  by (simp add: rowAssign_def at_index_def propertyName_def tableGet_def)

lemma rowAssign_target:
  assumes "rowAssign headers d i = Some (k, v)" "map_of HEADERS_TO_WORKSPACE_KEY h = Some k"
  shows "i < length headers \<and> map_of HEADERS_TO_WORKSPACE_KEY (headers ! i) = Some k \<and> v = coerced d (KStr k)"
proof (cases "i < length headers")
  case False
  then show ?thesis
    using assms(1)
    by (simp add: rowAssign_def at_index_def propertyName_def tableGet_def
        HEADERS_TO_WORKSPACE_KEY_def objectPrototypeNames_def)
next
  case True
  show ?thesis
  proof (cases "map_of HEADERS_TO_WORKSPACE_KEY (headers ! i)")
    case None
    then show ?thesis
      using assms(1) True header_value_not_inherited [OF assms(2)]
      by (auto simp: rowAssign_def at_index_def propertyName_def tableGet_def Let_def split: if_splits)
  next
    case (Some k')
    then show ?thesis
      using assms(1) True
      by (auto simp: rowAssign_def at_index_def propertyName_def tableGet_def Let_def split: if_splits)
  qed
qed

lemma derived_untouched:
  "k \<notin> {''access'', ''consortium'', ''samples'', ''size'', ''dbGapIdAccession'', ''dbGapId''} \<Longrightarrow>
   (row ++ derivedFields ac c sa si a sid) k = row k"
  by (simp add: derivedFields_def map_add_def)

lemma coerced_column_kept:
  assumes built: "buildWorkspaceRow g contentRow headers sc st fs = Inr rec"
    and i: "i < length (split_str contentRow TAB)" "i < length headers"
    and k: "map_of HEADERS_TO_WORKSPACE_KEY (headers ! i) = Some k"
    and not_derived:
      "k \<notin> {''access'', ''consortium'', ''samples'', ''size'', ''dbGapIdAccession'', ''dbGapId''}"
    and last: "\<And>j. i < j \<Longrightarrow> j < length (split_str contentRow TAB) \<Longrightarrow> j < length headers \<Longrightarrow>
                 map_of HEADERS_TO_WORKSPACE_KEY (headers ! j) \<noteq> Some k"
  shows "\<exists>v. rec k = Some v \<and> buildIngestedDatum (JStr (split_str contentRow TAB ! i)) (KStr k) = Inr v"
proof -
  let ?fields = "split_str contentRow TAB"
  from buildWorkspaceRow_InrD [OF built] obtain row p c a where
    row: "ingestedRow contentRow headers = Inr row"
    and rec: "rec = row ++ derivedFields
            (if p \<in> set ALLOW_LIST_WORKSPACE_ACCESS_PUBLIC then ''Public'' else ''Private'')
            c (orZero (map_get sc (JStr p))) (orZero (map_get fs (JStr p)))
            a (map_get st (JStr p))"
    by blast
  have "row k = Some (coerced (?fields ! i) (KStr k))"
  proof (rule reduce_from_assign_last [OF row [unfolded ingestedRow_assign], of i])
    show "i < length ?fields" by (rule i(1))
    show "rowAssign headers (?fields ! i) (0 + i) = Some (k, coerced (?fields ! i) (KStr k))"
      using rowAssign_own [OF i(2) k] by simp
    fix j v' assume j: "i < j" "j < length ?fields"
    show "rowAssign headers (?fields ! j) (0 + j) \<noteq> Some (k, v')"
    proof
      assume "rowAssign headers (?fields ! j) (0 + j) = Some (k, v')"
      then have "j < length headers \<and> map_of HEADERS_TO_WORKSPACE_KEY (headers ! j) = Some k"
        using rowAssign_target [of headers "?fields ! j" j k v', OF _ k] by simp
      with last [OF j] show False by simp
    qed
  qed
  then have "rec k = Some (coerced (?fields ! i) (KStr k))"
    using not_derived by (simp add: rec derived_untouched)
  then show ?thesis
    by (simp add: buildIngestedDatum_text)
qed

text \<open>
  C2, as amended. For every content row that becomes a record and every column of the
  row whose header maps to a canonical field other than the six derived ones (\<open>access\<close>,
  \<open>consortium\<close>, \<open>samples\<close>, \<open>size\<close>, \<open>dbGapIdAccession\<close>, \<open>dbGapId\<close>), the column being
  the last of the row that maps to that field: the record read back at the field is
  exactly Field Coercion of the column's text. The six derived fields hold the derived
  values, whatever the row's columns held.
\<close>

theorem round_trip_of_coerced_fields:
  assumes built: "buildWorkspaceRow g contentRow headers sc st fs = Inr rec"
  shows "(\<forall>i k. i < length (split_str contentRow TAB) \<longrightarrow> i < length headers \<longrightarrow>
            map_of HEADERS_TO_WORKSPACE_KEY (headers ! i) = Some k \<longrightarrow>
            k \<notin> {''access'', ''consortium'', ''samples'', ''size'', ''dbGapIdAccession'', ''dbGapId''} \<longrightarrow>
            (\<forall>j. i < j \<and> j < length (split_str contentRow TAB) \<and> j < length headers \<longrightarrow>
                 map_of HEADERS_TO_WORKSPACE_KEY (headers ! j) \<noteq> Some k) \<longrightarrow>
            (\<exists>v. rec k = Some v \<and>
                 buildIngestedDatum (JStr (split_str contentRow TAB ! i)) (KStr k) = Inr v)) \<and>
         (\<exists>p c a.
            rec ''projectId'' = Some (JStr p) \<and>
            rec ''access'' =
              Some (JStr (if p \<in> set ALLOW_LIST_WORKSPACE_ACCESS_PUBLIC then ''Public'' else ''Private'')) \<and>
            buildIngestedDatum (secondElement (split_str p ''_'')) (KStr ''consortium'') = Inr c \<and>
            rec ''consortium'' = Some c \<and>
            rec ''samples'' = Some (orZero (map_get sc (JStr p))) \<and>
            rec ''size'' = Some (orZero (map_get fs (JStr p))) \<and>
            rec ''dbGapId'' = Some (map_get st (JStr p)) \<and>
            g (map_get st (JStr p)) = Inr a \<and>
            rec ''dbGapIdAccession'' = Some a)"
proof -
  have columns: "\<exists>v. rec k = Some v \<and>
      buildIngestedDatum (JStr (split_str contentRow TAB ! i)) (KStr k) = Inr v"
    if "i < length (split_str contentRow TAB)" "i < length headers"
      "map_of HEADERS_TO_WORKSPACE_KEY (headers ! i) = Some k"
      "k \<notin> {''access'', ''consortium'', ''samples'', ''size'', ''dbGapIdAccession'', ''dbGapId''}"
      "\<forall>j. i < j \<and> j < length (split_str contentRow TAB) \<and> j < length headers \<longrightarrow>
           map_of HEADERS_TO_WORKSPACE_KEY (headers ! j) \<noteq> Some k" for i k
    using coerced_column_kept [OF built that(1-4)] that(5) by blast
  from buildWorkspaceRow_InrD [OF built] obtain row p c a where
    p: "objGet row ''projectId'' = JStr p"
    and c: "buildIngestedDatum (secondElement (split_str p ''_'')) (KStr ''consortium'') = Inr c"
    and a: "g (map_get st (JStr p)) = Inr a"
    and rec: "rec = row ++ derivedFields
            (if p \<in> set ALLOW_LIST_WORKSPACE_ACCESS_PUBLIC then ''Public'' else ''Private'')
            c (orZero (map_get sc (JStr p))) (orZero (map_get fs (JStr p)))
            a (map_get st (JStr p))"
    by blast
  have derived: "rec ''projectId'' = Some (JStr p) \<and>
      rec ''access'' =
        Some (JStr (if p \<in> set ALLOW_LIST_WORKSPACE_ACCESS_PUBLIC then ''Public'' else ''Private'')) \<and>
      buildIngestedDatum (secondElement (split_str p ''_'')) (KStr ''consortium'') = Inr c \<and>
      rec ''consortium'' = Some c \<and>
      rec ''samples'' = Some (orZero (map_get sc (JStr p))) \<and>
      rec ''size'' = Some (orZero (map_get fs (JStr p))) \<and>
      rec ''dbGapId'' = Some (map_get st (JStr p)) \<and>
      g (map_get st (JStr p)) = Inr a \<and>
      rec ''dbGapIdAccession'' = Some a"
    using objGet_projectId [OF p] c a by (simp add: rec derived_lookup)
  from columns derived show ?thesis by blast
qed

subsection \<open>Lookup builder\<close>

lemma keyValueRow_assign:
  "keyValueRow contentRow headers keyPair valuePair =
     reduce_from 0 (\<lambda>acc datum i. Inr (assign (kvAssign headers keyPair valuePair datum i) acc))
       Map.empty (split_str contentRow TAB)"
proof -
  have "(\<lambda>acc datum i.
          let header = at_index headers i
          in if isHeaderKeyOrValue header keyPair valuePair then
               (case getIngestedDatumKeyValuePair (JStr datum) header of
                  Inl e \<Rightarrow> Inl e
                | Inr (key, v) \<Rightarrow> Inr (acc(toPropertyKey key \<mapsto> v)))
             else Inr acc) =
        (\<lambda>acc datum i. Inr (assign (kvAssign headers keyPair valuePair datum i) acc))"
    by (intro ext) (simp add: getIngestedDatumKeyValuePair_text kvAssign_def assign_def Let_def)
  then show ?thesis
    by (simp add: keyValueRow_def reduce_def)
qed

lemma keyValueRow_total: "\<exists>row. keyValueRow contentRow headers keyPair valuePair = Inr row"
  unfolding keyValueRow_assign by (rule reduce_from_pure) simp

lemma kvAssign_source:
  assumes "kvAssign headers kp vp d n = Some (k, v)"
  shows "n < length headers \<and>
         (headers ! n = INGESTION_HEADERS_TO_WORKSPACE_KEY kp \<and>
            k = toPropertyKey (columnKey kp) \<and> v = coerced d (columnKey kp) \<or>
          headers ! n = INGESTION_HEADERS_TO_WORKSPACE_KEY vp \<and>
            k = toPropertyKey (columnKey vp) \<and> v = coerced d (columnKey vp))"
  using assms
  by (auto simp: kvAssign_def isHeaderKeyOrValue_def at_index_def propertyName_def columnKey_def
      Let_def split: if_splits)

lemma kvAssign_at:
  assumes "n < length headers"
    and "headers ! n = INGESTION_HEADERS_TO_WORKSPACE_KEY kp \<or> headers ! n = INGESTION_HEADERS_TO_WORKSPACE_KEY vp"
  shows "kvAssign headers kp vp d n =
     Some (toPropertyKey (tableGet HEADERS_TO_WORKSPACE_KEY (headers ! n)),
           coerced d (tableGet HEADERS_TO_WORKSPACE_KEY (headers ! n)))"
  using assms
  by (auto simp: kvAssign_def isHeaderKeyOrValue_def at_index_def propertyName_def Let_def)

lemma column_field_not_inherited: "toPropertyKey (columnKey column) \<notin> set objectPrototypeNames"
  by (cases column)
    (simp_all add: columnKey_def tableGet_def HEADERS_TO_WORKSPACE_KEY_def objectPrototypeNames_def)

text \<open>What the row object holds under a column's field, when that column occurs once.\<close>

lemma keyValueRow_cell:
  assumes row: "keyValueRow contentRow headers kp vp = Inr row"
    and col: "i < length headers" "headers ! i = INGESTION_HEADERS_TO_WORKSPACE_KEY c"
    and c: "c = kp \<or> c = vp"
    and other: "toPropertyKey (columnKey kp) \<noteq> toPropertyKey (columnKey vp)"
    and once: "\<And>n. n < length headers \<Longrightarrow> headers ! n = INGESTION_HEADERS_TO_WORKSPACE_KEY c \<Longrightarrow> n = i"
  shows "objGet row (toPropertyKey (columnKey c)) = cell contentRow i c"
proof -
  let ?fields = "split_str contentRow TAB"
  let ?k = "toPropertyKey (columnKey c)"
  note fold = row [unfolded keyValueRow_assign]
  have target: "n = i" if "kvAssign headers kp vp d n = Some (?k, v)" for d n v
  proof -
    from kvAssign_source [OF that] c other
    have "n < length headers \<and> headers ! n = INGESTION_HEADERS_TO_WORKSPACE_KEY c"
      by auto
    then show ?thesis using once by blast
  qed
  show ?thesis
  proof (cases "i < length ?fields")
    case True
    have "row ?k = Some (coerced (?fields ! i) (columnKey c))"
    proof (rule reduce_from_assign_last [OF fold, of i])
      show "i < length ?fields" by (rule True)
      show "kvAssign headers kp vp (?fields ! i) (0 + i) = Some (?k, coerced (?fields ! i) (columnKey c))"
        using kvAssign_at [OF col(1), of kp vp "?fields ! i"] col(2) c by (auto simp: columnKey_def)
      fix j' v' assume "i < j'" "j' < length ?fields"
      then show "kvAssign headers kp vp (?fields ! j') (0 + j') \<noteq> Some (?k, v')"
        using target [of "?fields ! j'" j' v'] by auto
    qed
    then show ?thesis
      using True by (simp add: objGet_def cell_def)
  next
    case False
    have "row ?k = Map.empty ?k"
    proof (rule reduce_from_assign_untouched [OF fold])
      fix j v assume "j < length ?fields"
      then show "kvAssign headers kp vp (?fields ! j) (0 + j) \<noteq> Some (?k, v)"
        using target [of "?fields ! j" j v] False by auto
    qed
    then show ?thesis
      using False column_field_not_inherited [of c] by (simp add: objGet_def cell_def)
  qed
qed

lemma sameValueZero_eq: "sameValueZero a b \<Longrightarrow> a = b"
  by (cases a; cases b) auto

lemma sameValueZero_sym: "sameValueZero a b = sameValueZero b a"
  by (cases a; cases b) auto

lemma map_get_map_set:
  "map_get (map_set m k v) q = (if sameValueZero k q then v else map_get m q)"
proof (induction m)
  case Nil
  then show ?case by simp
next
  case (Cons e m)
  obtain k' v' where e: "e = (k', v')" by (cases e)
  show ?case
  proof (cases "sameValueZero k' k")
    case True
    then show ?thesis
      using sameValueZero_eq [OF True] by (simp add: e)
  next
    case False
    have "\<not> (sameValueZero k' q \<and> sameValueZero k q)"
    proof
      assume both: "sameValueZero k' q \<and> sameValueZero k q"
      then have "k' = q" "k = q" by (auto dest: sameValueZero_eq)
      with both False show False by simp
    qed
    then show ?thesis
      using False Cons.IH by (auto simp: e)
  qed
qed

lemma map_has_map_set:
  "map_has (map_set m k v) q = (sameValueZero k q \<or> map_has m q)"
proof (induction m)
  case Nil
  then show ?case by simp
next
  case (Cons e m)
  obtain k' v' where e: "e = (k', v')" by (cases e)
  show ?case
    using Cons.IH by (auto simp: e dest: sameValueZero_eq)
qed

lemma length_map_set:
  "length (map_set m k v) = (if map_has m k then length m else Suc (length m))"
proof (induction m)
  case Nil
  then show ?case by simp
next
  case (Cons e m)
  obtain k' v' where e: "e = (k', v')" by (cases e)
  show ?case
    using Cons.IH by (auto simp: e)
qed

text \<open>A \<open>Map\<close> filled by one \<open>set\<close> for each element of a list.\<close>

lemma foldl_map_set_has:
  "map_has (foldl (\<lambda>m r. map_set m (kf r) (vf r)) [] rs) q = (\<exists>r \<in> set rs. sameValueZero (kf r) q)"
  by (induction rs rule: rev_induct) (auto simp: map_has_map_set)

lemma foldl_map_set_get:
  "map_get (foldl (\<lambda>m r. map_set m (kf r) (vf r)) [] rs) q =
     (case find (\<lambda>r. sameValueZero (kf r) q) (rev rs) of None \<Rightarrow> JUndefined | Some r \<Rightarrow> vf r)"
  by (induction rs rule: rev_induct) (auto simp: map_get_map_set)

lemma foldl_map_set_length_le:
  "length (foldl (\<lambda>m r. map_set m (kf r) (vf r)) [] rs) \<le> length rs"
  by (induction rs rule: rev_induct) (auto simp: length_map_set)

lemma foldl_map_set_length:
  assumes "\<And>a b. a < b \<Longrightarrow> b < length rs \<Longrightarrow> \<not> sameValueZero (kf (rs ! a)) (kf (rs ! b))"
  shows "length (foldl (\<lambda>m r. map_set m (kf r) (vf r)) [] rs) = length rs"
  using assms
proof (induction rs rule: rev_induct)
  case Nil
  then show ?case by simp
next
  case (snoc r rs)
  have inner: "\<not> sameValueZero (kf (rs ! a)) (kf (rs ! b))" if "a < b" "b < length rs" for a b
    using snoc.prems [of a b] that by (simp add: nth_append)
  have fresh: "\<not> sameValueZero (kf r') (kf r)" if "r' \<in> set rs" for r'
  proof -
    from that obtain a where a: "a < length rs" "rs ! a = r'"
      by (auto simp: in_set_conv_nth)
    then show ?thesis
      using snoc.prems [of a "length rs"] by (simp add: nth_append)
  qed
  show ?case
    using snoc.IH [OF inner] fresh by (simp add: length_map_set foldl_map_set_has)
qed

lemma reduce_from_total_foldl:
  assumes "\<And>x. \<exists>y. g x = Inr y"
  shows "reduce_from n (\<lambda>acc x i. case g x of Inl e \<Rightarrow> Inl e | Inr y \<Rightarrow> Inr (h acc y)) acc xs =
     Inr (foldl (\<lambda>a x. h a (projr (g x))) acc xs)"
proof (induction xs arbitrary: n acc)
  case Nil
  then show ?case by simp
next
  case (Cons x xs)
  from assms [of x] obtain y where "g x = Inr y" by blast
  then show ?case by (simp add: Cons.IH)
qed

lemma buildKeyValuePair_foldl:
  "buildKeyValuePair contentRows headers kp vp =
     Inr (foldl (\<lambda>m r. map_set m
                   (objGet (projr (keyValueRow r headers kp vp)) (toPropertyKey (columnKey kp)))
                   (objGet (projr (keyValueRow r headers kp vp)) (toPropertyKey (columnKey vp))))
            [] (drop 1 contentRows))"
  unfolding buildKeyValuePair_def reduce_def Let_def columnKey_def [symmetric]
  by (rule reduce_from_total_foldl [where g = "\<lambda>r. keyValueRow r headers kp vp"])
     (rule keyValueRow_total)

lemma buildKeyValuePair_cells:
  assumes key_col: "i < length headers" "headers ! i = INGESTION_HEADERS_TO_WORKSPACE_KEY kp"
    and value_col: "j < length headers" "headers ! j = INGESTION_HEADERS_TO_WORKSPACE_KEY vp"
    and key_once: "\<And>n. n < length headers \<Longrightarrow> headers ! n = INGESTION_HEADERS_TO_WORKSPACE_KEY kp \<Longrightarrow> n = i"
    and value_once: "\<And>n. n < length headers \<Longrightarrow> headers ! n = INGESTION_HEADERS_TO_WORKSPACE_KEY vp \<Longrightarrow> n = j"
    and other: "toPropertyKey (columnKey kp) \<noteq> toPropertyKey (columnKey vp)"
  shows "buildKeyValuePair contentRows headers kp vp =
     Inr (foldl (\<lambda>m r. map_set m (cell r i kp) (cell r j vp)) [] (drop 1 contentRows))"
proof -
  have "objGet (projr (keyValueRow r headers kp vp)) (toPropertyKey (columnKey kp)) = cell r i kp \<and>
        objGet (projr (keyValueRow r headers kp vp)) (toPropertyKey (columnKey vp)) = cell r j vp" for r
  proof -
    from keyValueRow_total [of r headers kp vp] obtain row where
      row: "keyValueRow r headers kp vp = Inr row" by blast
    have "objGet row (toPropertyKey (columnKey kp)) = cell r i kp"
      by (rule keyValueRow_cell [OF row key_col _ other key_once]) simp_all
    moreover have "objGet row (toPropertyKey (columnKey vp)) = cell r j vp"
      by (rule keyValueRow_cell [OF row value_col _ other value_once]) simp_all
    ultimately show ?thesis by (simp add: row)
  qed
  then show ?thesis
    by (simp add: buildKeyValuePair_foldl)
qed

text \<open>
  C3. For a lookup input whose header row names the key column and the value column
  once each (two different fields), the Lookup Builder returns a \<open>Map\<close> that has a key
  exactly when some non-header row has it under the key column, that maps a key to the
  value under the value column of the last row with that key, and that has one entry
  for each non-header row when no two rows share a key (never more entries than rows).
\<close>

theorem lookup_builder_entries:
  assumes key_col: "i < length headers" "headers ! i = INGESTION_HEADERS_TO_WORKSPACE_KEY kp"
    and value_col: "j < length headers" "headers ! j = INGESTION_HEADERS_TO_WORKSPACE_KEY vp"
    and key_once: "\<And>n. n < length headers \<Longrightarrow> headers ! n = INGESTION_HEADERS_TO_WORKSPACE_KEY kp \<Longrightarrow> n = i"
    and value_once: "\<And>n. n < length headers \<Longrightarrow> headers ! n = INGESTION_HEADERS_TO_WORKSPACE_KEY vp \<Longrightarrow> n = j"
    and other: "toPropertyKey (columnKey kp) \<noteq> toPropertyKey (columnKey vp)"
  shows "\<exists>m. buildKeyValuePair contentRows headers kp vp = Inr m \<and>
           (\<forall>q. map_has m q = (\<exists>r \<in> set (drop 1 contentRows). sameValueZero (cell r i kp) q)) \<and>
           (\<forall>q. map_get m q =
              (case find (\<lambda>r. sameValueZero (cell r i kp) q) (rev (drop 1 contentRows)) of
                 None \<Rightarrow> JUndefined | Some r \<Rightarrow> cell r j vp)) \<and>
           length m \<le> length (drop 1 contentRows) \<and>
           ((\<forall>a b. a < b \<and> b < length (drop 1 contentRows) \<longrightarrow>
               \<not> sameValueZero (cell (drop 1 contentRows ! a) i kp) (cell (drop 1 contentRows ! b) i kp)) \<longrightarrow>
            length m = length (drop 1 contentRows))"
proof -
  let ?rs = "drop 1 contentRows"
  let ?m = "foldl (\<lambda>m r. map_set m (cell r i kp) (cell r j vp)) [] ?rs"
  have built: "buildKeyValuePair contentRows headers kp vp = Inr ?m"
    by (rule buildKeyValuePair_cells [OF assms])
  have has: "\<forall>q. map_has ?m q = (\<exists>r \<in> set ?rs. sameValueZero (cell r i kp) q)"
    by (simp only: foldl_map_set_has) simp
  have get: "\<forall>q. map_get ?m q =
      (case find (\<lambda>r. sameValueZero (cell r i kp) q) (rev ?rs) of
         None \<Rightarrow> JUndefined | Some r \<Rightarrow> cell r j vp)"
    by (simp only: foldl_map_set_get) simp
  have le: "length ?m \<le> length ?rs"
    by (rule foldl_map_set_length_le)
  have eq: "(\<forall>a b. a < b \<and> b < length ?rs \<longrightarrow>
               \<not> sameValueZero (cell (?rs ! a) i kp) (cell (?rs ! b) i kp)) \<longrightarrow>
            length ?m = length ?rs"
    using foldl_map_set_length [of ?rs "\<lambda>r. cell r i kp" "\<lambda>r. cell r j vp"] by blast
  from built has get le eq show ?thesis by blast
qed

subsection \<open>Examples and the absent file\<close>

theorem round_trip_of_coerced_fields_witness:
  "\<exists>rec. buildWorkspaceRow (\<lambda>studyId. Inr JUndefined) (''AN_CCDG_x'' @ TAB @ ''12'' @ TAB @ ''WGS,WES'')
        [''name'', ''Sample Count'', ''library:datatype.items''] [] [] [] = Inr rec \<and>
     split_str (''AN_CCDG_x'' @ TAB @ ''12'' @ TAB @ ''WGS,WES'') TAB = [''AN_CCDG_x'', ''12'', ''WGS,WES''] \<and>
     map_of HEADERS_TO_WORKSPACE_KEY ''library:datatype.items'' = Some ''dataTypes'' \<and>
     rec ''dataTypes'' = Some (JArr [''WGS'', ''WES''])"
proof -
  let ?row = "''AN_CCDG_x'' @ TAB @ ''12'' @ TAB @ ''WGS,WES''"
  let ?headers = "[''name'', ''Sample Count'', ''library:datatype.items'']"
  have "recordField (buildWorkspaceRow (\<lambda>studyId. Inr JUndefined) ?row ?headers [] [] []) ''projectId''
      = Some (JStr ''AN_CCDG_x'')"
    by code_simp
  then obtain rec where built:
    "buildWorkspaceRow (\<lambda>studyId. Inr JUndefined) ?row ?headers [] [] [] = Inr rec"
    by (auto simp: recordField_def split: sum.splits)
  have fields: "split_str ?row TAB = [''AN_CCDG_x'', ''12'', ''WGS,WES'']"
    by (simp add: split_str_def TAB_def)
  have k: "map_of HEADERS_TO_WORKSPACE_KEY (?headers ! 2) = Some ''dataTypes''"
    by (simp add: HEADERS_TO_WORKSPACE_KEY_def)
  have v: "buildIngestedDatum (JStr ''WGS,WES'') (KStr ''dataTypes'') = Inr (JArr [''WGS'', ''WES''])"
    by (simp add: buildIngestedDatum_array ALLOW_LIST_WORKSPACE_FIELD_ARRAY_def split_str_def)
  have "\<exists>v. rec ''dataTypes'' = Some v \<and>
      buildIngestedDatum (JStr (split_str ?row TAB ! 2)) (KStr ''dataTypes'') = Inr v"
  proof (rule round_trip_of_coerced_fields [OF built, THEN conjunct1, rule_format, OF _ _ k])
    show "2 < length (split_str ?row TAB)"
      unfolding fields by simp
    show "2 < length ?headers"
      by simp
    show "''dataTypes'' \<notin> {''access'', ''consortium'', ''samples'', ''size'', ''dbGapIdAccession'', ''dbGapId''}"
      by simp
    show "map_of HEADERS_TO_WORKSPACE_KEY (?headers ! j) \<noteq> Some ''dataTypes''"
      if "2 < j \<and> j < length (split_str ?row TAB) \<and> j < length ?headers" for j
    proof -
      from that have "2 < j" "j < 3" by simp_all
      then show ?thesis by linarith
    qed
  qed
  then have "rec ''dataTypes'' = Some (JArr [''WGS'', ''WES''])"
    unfolding fields by (simp add: v)
  with built fields k show ?thesis by auto
qed

text \<open>
  C2 as stated fails at a column that maps to a derived field: with the header
  \<open>Sample Count\<close> and the text \<open>"7"\<close>, Field Coercion gives 7 and the record holds 0, the
  value derived from the (empty) sample-count lookup. It also fails at a column that a
  later column of the same field overwrites: with the headers \<open>name\<close> and \<open>Workspace\<close>,
  which both map to \<open>projectId\<close>, the record holds the text of the second column.
\<close>

theorem derived_field_overrides_column_counterexample:
  "recordField (buildWorkspaceRow (\<lambda>studyId. Inr JUndefined) (''AN_CCDG_x'' @ TAB @ ''7'')
      [''name'', ''Sample Count''] [] [] []) ''samples'' = Some (JNum (Fin 0)) \<and>
   split_str (''AN_CCDG_x'' @ TAB @ ''7'') TAB = [''AN_CCDG_x'', ''7''] \<and>
   map_of HEADERS_TO_WORKSPACE_KEY ''Sample Count'' = Some ''samples'' \<and>
   buildIngestedDatum (JStr ''7'') (KStr ''samples'') = Inr (JNum (Fin 7)) \<and>
   recordField (buildWorkspaceRow (\<lambda>studyId. Inr JUndefined) (''AN_CCDG_x'' @ TAB @ ''AN_CMG_y'')
      [''name'', ''Workspace''] [] [] []) ''projectId'' = Some (JStr ''AN_CMG_y'') \<and>
   split_str (''AN_CCDG_x'' @ TAB @ ''AN_CMG_y'') TAB = [''AN_CCDG_x'', ''AN_CMG_y''] \<and>
   map_of HEADERS_TO_WORKSPACE_KEY ''name'' = Some ''projectId'' \<and>
   buildIngestedDatum (JStr ''AN_CCDG_x'') (KStr ''projectId'') = Inr (JStr ''AN_CCDG_x'')"
proof -
  have "recordField (buildWorkspaceRow (\<lambda>studyId. Inr JUndefined) (''AN_CCDG_x'' @ TAB @ ''7'')
      [''name'', ''Sample Count''] [] [] []) ''samples'' = Some (JNum (Fin 0))"
    by code_simp
  moreover have "split_str (''AN_CCDG_x'' @ TAB @ ''7'') TAB = [''AN_CCDG_x'', ''7'']"
    by (simp add: split_str_def TAB_def)
  moreover have "map_of HEADERS_TO_WORKSPACE_KEY ''Sample Count'' = Some ''samples''"
    by (simp add: HEADERS_TO_WORKSPACE_KEY_def)
  moreover have "buildIngestedDatum (JStr ''7'') (KStr ''samples'') = Inr (JNum (Fin 7))"
    by code_simp
  moreover have "recordField (buildWorkspaceRow (\<lambda>studyId. Inr JUndefined)
      (''AN_CCDG_x'' @ TAB @ ''AN_CMG_y'') [''name'', ''Workspace''] [] [] []) ''projectId'' =
      Some (JStr ''AN_CMG_y'')"
    by code_simp
  moreover have "split_str (''AN_CCDG_x'' @ TAB @ ''AN_CMG_y'') TAB = [''AN_CCDG_x'', ''AN_CMG_y'']"
    by (simp add: split_str_def TAB_def)
  moreover have "map_of HEADERS_TO_WORKSPACE_KEY ''name'' = Some ''projectId''"
    by (simp add: HEADERS_TO_WORKSPACE_KEY_def)
  moreover have "buildIngestedDatum (JStr ''AN_CCDG_x'') (KStr ''projectId'') = Inr (JStr ''AN_CCDG_x'')"
    by code_simp
  ultimately show ?thesis by simp
qed

theorem lookup_builder_entries_witness:
  "[''Workspace'', ''Sample Count''] ! 0 = INGESTION_HEADERS_TO_WORKSPACE_KEY WORKSPACE \<and>
   [''Workspace'', ''Sample Count''] ! 1 = INGESTION_HEADERS_TO_WORKSPACE_KEY SAMPLES \<and>
   toPropertyKey (columnKey WORKSPACE) \<noteq> toPropertyKey (columnKey SAMPLES) \<and>
   (\<exists>m. buildKeyValuePair
          [''Workspace'' @ TAB @ ''Sample Count'', ''A_B_c'' @ TAB @ ''1'', ''D_E_f'' @ TAB @ ''2,000'',
           ''A_B_c'' @ TAB @ ''3'']
          [''Workspace'', ''Sample Count''] WORKSPACE SAMPLES = Inr m \<and>
        map_has m (JStr ''D_E_f'') \<and> \<not> map_has m (JStr ''G_H_i'') \<and>
        map_get m (JStr ''A_B_c'') = JNum (Fin 3) \<and> map_get m (JStr ''D_E_f'') = JNum (Fin 2000) \<and>
        length m \<le> 3)"
proof -
  let ?headers = "[''Workspace'', ''Sample Count'']"
  let ?rows = "[''Workspace'' @ TAB @ ''Sample Count'', ''A_B_c'' @ TAB @ ''1'', ''D_E_f'' @ TAB @ ''2,000'',
           ''A_B_c'' @ TAB @ ''3'']"
  have other: "toPropertyKey (columnKey WORKSPACE) \<noteq> toPropertyKey (columnKey SAMPLES)"
    by (simp add: columnKey_def header_keys)
  have k1: "n = 0" if "n < length ?headers" "?headers ! n = INGESTION_HEADERS_TO_WORKSPACE_KEY WORKSPACE" for n
    using that by (cases n) auto
  have k2: "n = 1" if "n < length ?headers" "?headers ! n = INGESTION_HEADERS_TO_WORKSPACE_KEY SAMPLES" for n
    using that by (cases n) auto
  from lookup_builder_entries [of 0 ?headers WORKSPACE 1 SAMPLES ?rows, OF _ _ _ _ k1 k2 other]
  obtain m where m: "buildKeyValuePair ?rows ?headers WORKSPACE SAMPLES = Inr m"
    and has: "\<And>q. map_has m q = (\<exists>r \<in> set (drop 1 ?rows). sameValueZero (cell r 0 WORKSPACE) q)"
    and get: "\<And>q. map_get m q =
              (case find (\<lambda>r. sameValueZero (cell r 0 WORKSPACE) q) (rev (drop 1 ?rows)) of
                 None \<Rightarrow> JUndefined | Some r \<Rightarrow> cell r 1 SAMPLES)"
    and le: "length m \<le> length (drop 1 ?rows)"
    by auto
  have "list_ex (\<lambda>r. sameValueZero (cell r 0 WORKSPACE) (JStr ''D_E_f'')) (drop 1 ?rows)"
    by code_simp
  then have h1: "map_has m (JStr ''D_E_f'')"
    unfolding has list_ex_iff .
  have "\<not> list_ex (\<lambda>r. sameValueZero (cell r 0 WORKSPACE) (JStr ''G_H_i'')) (drop 1 ?rows)"
    by code_simp
  then have h2: "\<not> map_has m (JStr ''G_H_i'')"
    unfolding has list_ex_iff .
  have "(case find (\<lambda>r. sameValueZero (cell r 0 WORKSPACE) (JStr ''A_B_c'')) (rev (drop 1 ?rows)) of
                 None \<Rightarrow> JUndefined | Some r \<Rightarrow> cell r 1 SAMPLES) = JNum (Fin 3)"
    by code_simp
  then have g1: "map_get m (JStr ''A_B_c'') = JNum (Fin 3)"
    unfolding get .
  have "(case find (\<lambda>r. sameValueZero (cell r 0 WORKSPACE) (JStr ''D_E_f'')) (rev (drop 1 ?rows)) of
                 None \<Rightarrow> JUndefined | Some r \<Rightarrow> cell r 1 SAMPLES) = JNum (Fin 2000)"
    by code_simp
  then have g2: "map_get m (JStr ''D_E_f'') = JNum (Fin 2000)"
    unfolding get .
  from m h1 h2 g1 g2 le other show ?thesis by simp
qed

lemma lookups_total:
  "\<exists>m. getStudyIdByProjectId fs = (Inr m, snd (getFileContents fs fileAnVILDataIngestionAccession))"
  "\<exists>m. getSampleCountByProjectId fs = (Inr m, snd (getFileContents fs fileTerraDataIngestionCounts))"
  "\<exists>m. getFileSizeByProjectId fs = (Inr m, snd (getFileContents fs fileTerraDataIngestionFileSize))"
  by (simp_all add: getStudyIdByProjectId_def getSampleCountByProjectId_def
      getFileSizeByProjectId_def getIngestedData_def buildKeyValuePair_foldl split: prod.splits)

lemma getWorkspaces_absent:
  "fs fileAnVILDataIngestion = None \<Longrightarrow>
   getWorkspaces fs g sc st fz =
     (Inr [], [''Error: file '' @ fileAnVILDataIngestion @ '' cannot be found.''])"
  by (simp add: getWorkspaces_def getIngestedData_def getFileContents_def buildWorkspaces_def)

text \<open>
  C1. For every file name absent from the file system, file access writes the diagnostic
  naming the file and returns no lines. When the main export is absent,
  \<open>getIngestedWorkspaces\<close> resolves (whatever the other three files hold) to what the
  sort service returns for no records, the empty sequence, and has written the diagnostic
  for the main export.
\<close>

theorem absent_file_is_empty_data:
  "(fs fileName = None \<longrightarrow>
      getFileContents fs fileName = ([], [''Error: file '' @ fileName @ '' cannot be found.''])) \<and>
   (fs fileAnVILDataIngestion = None \<longrightarrow>
      fst (getIngestedWorkspaces fs getStudyGapAccession sortDataByDuoTypes) =
        Inr (sortDataByDuoTypes [] (KStr ''consortium'') (KStr ''projectId''))) \<and>
   (fs fileAnVILDataIngestion = None \<longrightarrow>
    sortDataByDuoTypes [] (KStr ''consortium'') (KStr ''projectId'') = [] \<longrightarrow>
      fst (getIngestedWorkspaces fs getStudyGapAccession sortDataByDuoTypes) = Inr [] \<and>
      ''Error: file anvil-data-ingestion-attributes.tsv cannot be found.''
        \<in> set (snd (getIngestedWorkspaces fs getStudyGapAccession sortDataByDuoTypes)))"
proof -
  obtain m1 m2 m3 where
    "getStudyIdByProjectId fs = (Inr m1, snd (getFileContents fs fileAnVILDataIngestionAccession))"
    "getSampleCountByProjectId fs = (Inr m2, snd (getFileContents fs fileTerraDataIngestionCounts))"
    "getFileSizeByProjectId fs = (Inr m3, snd (getFileContents fs fileTerraDataIngestionFileSize))"
    using lookups_total [of fs] by blast
  then show ?thesis
    by (simp add: getIngestedWorkspaces_def getWorkspaces_absent getFileContents_def header_keys
        key_consortium fileAnVILDataIngestion_def)
qed

theorem absent_file_is_empty_data_witness:
  "Map.empty ''missing.tsv'' = None \<and>
   getFileContents Map.empty ''missing.tsv'' = ([], [''Error: file missing.tsv cannot be found.'']) \<and>
   Map.empty fileAnVILDataIngestion = None \<and>
   getIngestedWorkspaces Map.empty (\<lambda>studyId. Inr JUndefined) (\<lambda>workspaces a b. workspaces) =
     (Inr [],
      [''Error: file anvil-data-ingestion-attributes-accession.tsv cannot be found.'',
       ''Error: file terra-data-ingestion-attributes-counts.tsv cannot be found.'',
       ''Error: file terra-data-ingestion-attributes-file-size.tsv cannot be found.'',
       ''Error: file anvil-data-ingestion-attributes.tsv cannot be found.''])"
proof -
  have out: "snd (getIngestedWorkspaces Map.empty (\<lambda>studyId. Inr JUndefined) (\<lambda>workspaces a b. workspaces)) =
      [''Error: file anvil-data-ingestion-attributes-accession.tsv cannot be found.'',
       ''Error: file terra-data-ingestion-attributes-counts.tsv cannot be found.'',
       ''Error: file terra-data-ingestion-attributes-file-size.tsv cannot be found.'',
       ''Error: file anvil-data-ingestion-attributes.tsv cannot be found.'']"
    by code_simp
  from absent_file_is_empty_data [where fs = Map.empty and fileName = "''missing.tsv''"
      and sortDataByDuoTypes = "\<lambda>workspaces a b. workspaces"
      and getStudyGapAccession = "\<lambda>studyId. Inr JUndefined"] out
  show ?thesis
    by (simp add: prod_eq_iff)
qed

subsection \<open>The sign of a number\<close>

lemma roundHalfEven_nonneg: "0 \<le> x \<Longrightarrow> 0 \<le> roundHalfEven x"
  by (auto simp: roundHalfEven_def Let_def)

lemma pow_int_pos: "0 < b \<Longrightarrow> 0 < pow_int b k"
  by (simp add: pow_int_def)

lemma roundMagnitude_nonneg: "0 \<le> q \<Longrightarrow> 0 \<le> roundMagnitude q"
proof -
  assume q: "0 \<le> q"
  have "0 \<le> of_int (roundHalfEven (q / pow_int 2 k)) * pow_int 2 k" for k
  proof -
    have "0 < pow_int 2 k" by (simp add: pow_int_pos)
    then have "0 \<le> q / pow_int 2 k" using q by simp
    then have "0 \<le> roundHalfEven (q / pow_int 2 k)" by (rule roundHalfEven_nonneg)
    then show ?thesis using \<open>0 < pow_int 2 k\<close> by simp
  qed
  then show ?thesis
    by (simp add: roundMagnitude_def Let_def)
qed

lemma toDouble_not_negative: "0 \<le> q \<Longrightarrow> \<not> negative (toDouble False q)"
  using roundMagnitude_nonneg [of q] by (simp add: toDouble_def Let_def)

lemma digitValue_nonneg: "digitValue c = Some d \<Longrightarrow> 0 \<le> d"
  by (auto simp: digitValue_def split: if_splits)

lemma digitsValue_step_nonneg:
  "0 \<le> radix \<Longrightarrow> 0 \<le> a \<Longrightarrow>
   0 \<le> foldl (\<lambda>a c. a * radix + (case digitValue c of None \<Rightarrow> 0 | Some d \<Rightarrow> d)) a ds"
proof (induction ds arbitrary: a)
  case Nil
  then show ?case by simp
next
  case (Cons c ds)
  have "0 \<le> a * radix + (case digitValue c of None \<Rightarrow> 0 | Some d \<Rightarrow> d)"
    using Cons.prems digitValue_nonneg [of c] by (auto split: option.splits)
  then show ?case
    using Cons.IH [OF Cons.prems(1)] by simp
qed

lemma digitsValue_nonneg: "0 \<le> radix \<Longrightarrow> 0 \<le> digitsValue radix ds"
  by (simp add: digitsValue_def digitsValue_step_nonneg)

lemma unsignedDecimal_nonneg: "unsignedDecimal u = Some q \<Longrightarrow> 0 \<le> q"
  using digitsValue_nonneg [of 10] pow_int_pos [of 10]
  by (auto simp: unsignedDecimal_def Let_def less_imp_le split: if_splits option.splits)

lemma nonDecimalRadix_pos: "nonDecimalRadix t = Some radix \<Longrightarrow> 0 \<le> radix"
  by (auto simp: nonDecimalRadix_def split: if_splits)

lemma trimString_subset: "set (trimString s) \<subseteq> set s"
proof -
  have "set (dropWhile P (rev (dropWhile P s))) \<subseteq> set s" for P
    using set_dropWhileD [of _ P "rev (dropWhile P s)"] set_dropWhileD [of _ P s] by auto
  then show ?thesis by (simp add: trimString_def)
qed

lemma Number_negative_minus:
  assumes "negative (Number s)"
  shows "CHR ''-'' \<in> set s"
proof -
  let ?t = "trimString s"
  have "?t \<noteq> [] \<and> hd ?t = CHR ''-''"
  proof (rule ccontr)
    assume no: "\<not> (?t \<noteq> [] \<and> hd ?t = CHR ''-'')"
    have "\<not> negative (Number s)"
    proof (cases "?t = []")
      case True
      then show ?thesis by (simp add: Number_def)
    next
      case False
      with no have hd: "hd ?t \<noteq> CHR ''-''" by simp
      show ?thesis
      proof (cases "nonDecimalRadix ?t")
        case (Some radix)
        then show ?thesis
          using False toDouble_not_negative [of "of_int (digitsValue radix (drop 2 ?t))"]
            digitsValue_nonneg [OF nonDecimalRadix_pos [OF Some]]
          by (simp add: Number_def Let_def)
      next
        case None
        then show ?thesis
          using False hd toDouble_not_negative unsignedDecimal_nonneg
          by (auto simp: Number_def Let_def split: option.splits)
      qed
    qed
    with assms show False by simp
  qed
  then have "CHR ''-'' \<in> set ?t"
    by (cases ?t) auto
  with trimString_subset show ?thesis by blast
qed

subsection \<open>The records of the pipeline\<close>

lemma split_from_chars: "x \<in> set (split_from cur sep cs) \<Longrightarrow> set x \<subseteq> set cur \<union> set cs"
proof (induction cur sep cs rule: split_from.induct)
  case (1 cur s)
  then show ?case by auto
next
  case (2 cur s c cs)
  show ?case
  proof (cases "s \<noteq> [] \<and> take (length s) (c # cs) = s")
    case True
    then have "x = rev cur \<or> x \<in> set (split_from [] s (drop (length s - 1) cs))"
      using "2.prems" by auto
    then show ?thesis
    proof
      assume "x = rev cur"
      then show ?thesis by auto
    next
      assume "x \<in> set (split_from [] s (drop (length s - 1) cs))"
      then have "set x \<subseteq> set [] \<union> set (drop (length s - 1) cs)"
        using "2.IH"(1) True by blast
      then show ?thesis
        using set_drop_subset [of "length s - 1" cs] by auto
    qed
  next
    case False
    then have "x \<in> set (split_from (c # cur) s cs)"
      using "2.prems" by auto
    then have "set x \<subseteq> set (c # cur) \<union> set cs"
      using "2.IH"(2) False by blast
    then show ?thesis by auto
  qed
qed

lemma split_str_chars: "x \<in> set (split_str s sep) \<Longrightarrow> set x \<subseteq> set s"
  using split_from_chars [of x "[]" sep s] by (simp add: split_str_def)

lemma file_text_chars:
  assumes "r \<in> set (fst (getFileContents fs f))" "d \<in> set (split_str r TAB)" "c \<in> set d"
  shows "\<exists>content. fs f = Some content \<and> c \<in> set content"
proof (cases "fs f")
  case None
  then show ?thesis using assms(1) by (simp add: getFileContents_def)
next
  case (Some content)
  then have "r \<in> set (split_str content CRLF)"
    using assms(1) by (simp add: getFileContents_def)
  then show ?thesis
    using Some split_str_chars [of r content CRLF] split_str_chars [OF assms(2)] assms(3) by auto
qed

lemma promise_all_Inr: "promise_all ps = Inr xs \<Longrightarrow> x \<in> set xs \<Longrightarrow> Inr x \<in> set ps"
proof (induction ps arbitrary: xs rule: promise_all.induct)
  case 1
  then show ?case by simp
next
  case (2 e ps)
  then show ?case by simp
next
  case (3 y ps)
  then show ?case by (auto split: sum.splits)
qed

lemma buildWorkspaces_row:
  assumes "buildWorkspaces g rows headers sc st fz = Inr ws" "rec \<in> set ws"
  shows "\<exists>r \<in> set rows. buildWorkspaceRow g r headers sc st fz = Inr rec"
proof -
  from promise_all_Inr [OF assms [unfolded buildWorkspaces_def]]
  obtain r where "r \<in> set (drop 1 rows)" "buildWorkspaceRow g r headers sc st fz = Inr rec"
    by auto
  then show ?thesis
    using set_drop_subset [of 1 rows] by blast
qed

lemma coerced_number:
  "k \<in> set ALLOW_LIST_WORKSPACE_FIELD_NUMBER \<Longrightarrow> coerced d (KStr k) = JNum (Number (removeCommas d))"
  by (simp add: coerced_def buildIngestedDatum_number)

lemma numeric_lookup_row:
  assumes row: "keyValueRow r headers WORKSPACE vp = Inr row" and vp: "vp = SAMPLES \<or> vp = SIZE"
  shows "objGet row (toPropertyKey (columnKey vp)) = JUndefined \<or>
         (\<exists>d \<in> set (split_str r TAB). objGet row (toPropertyKey (columnKey vp)) = JNum (Number (removeCommas d)))"
proof -
  let ?k = "toPropertyKey (columnKey vp)"
  have k: "?k \<noteq> toPropertyKey (columnKey WORKSPACE)" "?k \<notin> set objectPrototypeNames"
    "columnKey vp = KStr ?k" "?k \<in> set ALLOW_LIST_WORKSPACE_FIELD_NUMBER"
    using vp by (auto simp: columnKey_def header_keys objectPrototypeNames_def
        ALLOW_LIST_WORKSPACE_FIELD_NUMBER_def)
  from reduce_from_assign_source [OF row [unfolded keyValueRow_assign], of ?k]
  show ?thesis
  proof
    assume "row ?k = Map.empty ?k"
    then show ?thesis using k(2) by (simp add: objGet_def)
  next
    assume "\<exists>j v. j < length (split_str r TAB) \<and>
        kvAssign headers WORKSPACE vp (split_str r TAB ! j) (0 + j) = Some (?k, v) \<and> row ?k = Some v"
    then obtain j v where j: "j < length (split_str r TAB)"
      and a: "kvAssign headers WORKSPACE vp (split_str r TAB ! j) (0 + j) = Some (?k, v)"
      and v: "row ?k = Some v"
      by blast
    from kvAssign_source [OF a] k(1) have "v = coerced (split_str r TAB ! j) (columnKey vp)"
      by auto
    then have "v = JNum (Number (removeCommas (split_str r TAB ! j)))"
      using k(3,4) coerced_number [of ?k] by simp
    then show ?thesis
      using j v by (auto simp: objGet_def)
  qed
qed

lemma numeric_lookup_value:
  assumes m: "buildKeyValuePair rows headers WORKSPACE vp = Inr m" and vp: "vp = SAMPLES \<or> vp = SIZE"
  shows "map_get m q = JUndefined \<or>
         (\<exists>r \<in> set rows. \<exists>d \<in> set (split_str r TAB). map_get m q = JNum (Number (removeCommas d)))"
proof -
  let ?kf = "\<lambda>r. objGet (projr (keyValueRow r headers WORKSPACE vp)) (toPropertyKey (columnKey WORKSPACE))"
  let ?vf = "\<lambda>r. objGet (projr (keyValueRow r headers WORKSPACE vp)) (toPropertyKey (columnKey vp))"
  have m_eq: "m = foldl (\<lambda>m r. map_set m (?kf r) (?vf r)) [] (drop 1 rows)"
    using m by (simp add: buildKeyValuePair_foldl)
  show ?thesis
  proof (cases "find (\<lambda>r. sameValueZero (?kf r) q) (rev (drop 1 rows))")
    case None
    then show ?thesis
      by (simp add: m_eq foldl_map_set_get)
  next
    case (Some r)
    then have get: "map_get m q = ?vf r"
      by (simp add: m_eq foldl_map_set_get)
    from Some have "r \<in> set (rev (drop 1 rows))"
      by (metis find_Some_iff nth_mem)
    then have "r \<in> set (drop 1 rows)"
      by simp
    then have r: "r \<in> set rows"
      using set_drop_subset [of 1 rows] by blast
    from keyValueRow_total [of r headers WORKSPACE vp] obtain row where
      row: "keyValueRow r headers WORKSPACE vp = Inr row" by blast
    from numeric_lookup_row [OF row vp] show ?thesis
      using get r by (auto simp: row)
  qed
qed

lemma orZero_number:
  assumes "v = JUndefined \<or> v = JNum x"
  shows "\<exists>n. orZero v = JNum n \<and> n \<noteq> NaN \<and> (negative n \<longrightarrow> v = JNum n)"
proof (cases "truthy v")
  case True
  then have "orZero v = v" by (simp add: orZero_def)
  moreover from True assms have "v = JNum x \<and> x \<noteq> NaN" by auto
  ultimately show ?thesis by simp
next
  case False
  then have "orZero v = JNum (Fin 0)" by (simp add: orZero_def)
  then show ?thesis by simp
qed

lemma subjects_of_row:
  assumes row: "ingestedRow r headers = Inr row"
  shows "row ''subjects'' = None \<or>
         (\<exists>d \<in> set (split_str r TAB). row ''subjects'' = Some (JNum (Number (removeCommas d))))"
proof -
  have k: "map_of HEADERS_TO_WORKSPACE_KEY ''library:numSubjects'' = Some ''subjects''"
    by (simp add: HEADERS_TO_WORKSPACE_KEY_def)
  from reduce_from_assign_source [OF row [unfolded ingestedRow_assign], of "''subjects''"]
  show ?thesis
  proof
    assume "row ''subjects'' = Map.empty ''subjects''"
    then show ?thesis by simp
  next
    assume "\<exists>j v. j < length (split_str r TAB) \<and>
        rowAssign headers (split_str r TAB ! j) (0 + j) = Some (''subjects'', v) \<and>
        row ''subjects'' = Some v"
    then obtain j v where j: "j < length (split_str r TAB)"
      and a: "rowAssign headers (split_str r TAB ! j) (0 + j) = Some (''subjects'', v)"
      and v: "row ''subjects'' = Some v"
      by blast
    from rowAssign_target [OF a k] have "v = coerced (split_str r TAB ! j) (KStr ''subjects'')"
      by simp
    then have "v = JNum (Number (removeCommas (split_str r TAB ! j)))"
      by (simp add: coerced_number ALLOW_LIST_WORKSPACE_FIELD_NUMBER_def)
    then show ?thesis
      using j v by auto
  qed
qed

lemma projectId_nonempty:
  assumes "buildIngestedDatum (secondElement (split_str p ''_'')) (KStr ''consortium'') = Inr c"
  shows "p \<noteq> []"
proof
  assume "p = []"
  then have "secondElement (split_str p ''_'') = JUndefined"
    by (simp add: split_str_def secondElement_def)
  with assms show False
    by (simp add: consortium_undefined)
qed

lemma run_decompose:
  assumes "getIngestedWorkspaces fs g sortDataByDuoTypes = (Inr workspaces, out)"
  shows "\<exists>sc st fz ws.
     buildKeyValuePair (fst (getFileContents fs fileTerraDataIngestionCounts))
       (buildIngestedHeaders (fst (getFileContents fs fileTerraDataIngestionCounts))) WORKSPACE SAMPLES = Inr sc \<and>
     buildKeyValuePair (fst (getFileContents fs fileTerraDataIngestionFileSize))
       (buildIngestedHeaders (fst (getFileContents fs fileTerraDataIngestionFileSize))) WORKSPACE SIZE = Inr fz \<and>
     buildWorkspaces g (fst (getFileContents fs fileAnVILDataIngestion))
       (buildIngestedHeaders (fst (getFileContents fs fileAnVILDataIngestion))) sc st fz = Inr ws \<and>
     workspaces = sortDataByDuoTypes ws (KStr ''consortium'') (KStr ''projectId'')"
  using assms
  by (auto simp: getIngestedWorkspaces_def getStudyIdByProjectId_def getSampleCountByProjectId_def
      getFileSizeByProjectId_def getWorkspaces_def getIngestedData_def header_keys key_consortium
      split: prod.splits sum.splits)

text \<open>
  C4, as amended. Every Workspace Record the pipeline returns has a project id that is a
  non-empty string; its \<open>samples\<close> and \<open>size\<close> are numbers and never \<open>NaN\<close>, and its
  \<open>subjects\<close>, when the row has the column, is a number. The sign is not checked: each
  of the three is negative only when the export file it is read from holds a minus sign.
  (The sort service is taken to return only records it was given.)
\<close>

theorem workspace_record_invariant:
  assumes run: "getIngestedWorkspaces fs getStudyGapAccession sortDataByDuoTypes = (Inr workspaces, out)"
    and sort: "\<And>ws. set (sortDataByDuoTypes ws (KStr ''consortium'') (KStr ''projectId'')) \<subseteq> set ws"
    and rec: "rec \<in> set workspaces"
  shows "(\<exists>p. rec ''projectId'' = Some (JStr p) \<and> p \<noteq> []) \<and>
         (\<exists>n. rec ''samples'' = Some (JNum n) \<and> n \<noteq> NaN \<and>
            (negative n \<longrightarrow>
               (\<exists>content. fs fileTerraDataIngestionCounts = Some content \<and> CHR ''-'' \<in> set content))) \<and>
         (\<exists>n. rec ''size'' = Some (JNum n) \<and> n \<noteq> NaN \<and>
            (negative n \<longrightarrow>
               (\<exists>content. fs fileTerraDataIngestionFileSize = Some content \<and> CHR ''-'' \<in> set content))) \<and>
         (rec ''subjects'' = None \<or>
            (\<exists>n. rec ''subjects'' = Some (JNum n) \<and>
               (negative n \<longrightarrow>
                  (\<exists>content. fs fileAnVILDataIngestion = Some content \<and> CHR ''-'' \<in> set content))))"
proof -
  let ?counts = "fst (getFileContents fs fileTerraDataIngestionCounts)"
  let ?sizes = "fst (getFileContents fs fileTerraDataIngestionFileSize)"
  let ?main = "fst (getFileContents fs fileAnVILDataIngestion)"
  from run_decompose [OF run] obtain sc st fz ws where
    sc: "buildKeyValuePair ?counts (buildIngestedHeaders ?counts) WORKSPACE SAMPLES = Inr sc"
    and fz: "buildKeyValuePair ?sizes (buildIngestedHeaders ?sizes) WORKSPACE SIZE = Inr fz"
    and ws: "buildWorkspaces getStudyGapAccession ?main (buildIngestedHeaders ?main) sc st fz = Inr ws"
    and sorted: "workspaces = sortDataByDuoTypes ws (KStr ''consortium'') (KStr ''projectId'')"
    by blast
  from rec sorted sort have "rec \<in> set ws" by blast
  from buildWorkspaces_row [OF ws this] obtain r where
    r: "r \<in> set ?main"
    and built: "buildWorkspaceRow getStudyGapAccession r (buildIngestedHeaders ?main) sc st fz = Inr rec"
    by blast
  from buildWorkspaceRow_InrD [OF built] obtain row p c a where
    row: "ingestedRow r (buildIngestedHeaders ?main) = Inr row"
    and p: "objGet row ''projectId'' = JStr p"
    and c: "buildIngestedDatum (secondElement (split_str p ''_'')) (KStr ''consortium'') = Inr c"
    and rec_eq: "rec = row ++ derivedFields
            (if p \<in> set ALLOW_LIST_WORKSPACE_ACCESS_PUBLIC then ''Public'' else ''Private'')
            c (orZero (map_get sc (JStr p))) (orZero (map_get fz (JStr p)))
            a (map_get st (JStr p))"
    by blast
  have pid: "\<exists>p. rec ''projectId'' = Some (JStr p) \<and> p \<noteq> []"
    using objGet_projectId [OF p] projectId_nonempty [OF c] by (simp add: rec_eq derived_lookup)
  have number: "\<exists>n. orZero (map_get m (JStr p)) = JNum n \<and> n \<noteq> NaN \<and>
            (negative n \<longrightarrow> (\<exists>content. fs f = Some content \<and> CHR ''-'' \<in> set content))"
    if m: "buildKeyValuePair (fst (getFileContents fs f)) h WORKSPACE vp = Inr m"
      and vp: "vp = SAMPLES \<or> vp = SIZE" for m f h vp
  proof -
    from numeric_lookup_value [OF m vp, of "JStr p"] consider
      (undefined) "map_get m (JStr p) = JUndefined"
      | (number) r' d where "r' \<in> set (fst (getFileContents fs f))" "d \<in> set (split_str r' TAB)"
          "map_get m (JStr p) = JNum (Number (removeCommas d))"
      by blast
    then show ?thesis
    proof cases
      case undefined
      then show ?thesis by (simp add: orZero_def)
    next
      case number
      from orZero_number [of "map_get m (JStr p)" "Number (removeCommas d)"] number(3)
      obtain n where n: "orZero (map_get m (JStr p)) = JNum n" "n \<noteq> NaN"
        "negative n \<longrightarrow> n = Number (removeCommas d)"
        by auto
      have "\<exists>content. fs f = Some content \<and> CHR ''-'' \<in> set content" if "negative n"
      proof -
        from that n(3) have "CHR ''-'' \<in> set (removeCommas d)"
          using Number_negative_minus by simp
        then have "CHR ''-'' \<in> set d"
          by (simp add: removeCommas_def)
        with file_text_chars [OF number(1,2)] show ?thesis by blast
      qed
      with n(1,2) show ?thesis by blast
    qed
  qed
  have samples: "\<exists>n. rec ''samples'' = Some (JNum n) \<and> n \<noteq> NaN \<and>
            (negative n \<longrightarrow>
               (\<exists>content. fs fileTerraDataIngestionCounts = Some content \<and> CHR ''-'' \<in> set content))"
    using number [OF sc] by (simp add: rec_eq derived_lookup)
  have size: "\<exists>n. rec ''size'' = Some (JNum n) \<and> n \<noteq> NaN \<and>
            (negative n \<longrightarrow>
               (\<exists>content. fs fileTerraDataIngestionFileSize = Some content \<and> CHR ''-'' \<in> set content))"
    using number [OF fz] by (simp add: rec_eq derived_lookup)
  have subjects: "rec ''subjects'' = None \<or>
            (\<exists>n. rec ''subjects'' = Some (JNum n) \<and>
               (negative n \<longrightarrow>
                  (\<exists>content. fs fileAnVILDataIngestion = Some content \<and> CHR ''-'' \<in> set content)))"
  proof -
    have same: "rec ''subjects'' = row ''subjects''"
      by (simp add: rec_eq derived_untouched)
    from subjects_of_row [OF row] show ?thesis
    proof
      assume "row ''subjects'' = None"
      with same show ?thesis by simp
    next
      assume "\<exists>d \<in> set (split_str r TAB). row ''subjects'' = Some (JNum (Number (removeCommas d)))"
      then obtain d where d: "d \<in> set (split_str r TAB)"
        and v: "row ''subjects'' = Some (JNum (Number (removeCommas d)))"
        by blast
      have "\<exists>content. fs fileAnVILDataIngestion = Some content \<and> CHR ''-'' \<in> set content"
        if "negative (Number (removeCommas d))"
      proof -
        from that have "CHR ''-'' \<in> set (removeCommas d)"
          by (rule Number_negative_minus)
        then have "CHR ''-'' \<in> set d"
          by (simp add: removeCommas_def)
        with file_text_chars [OF r d] show ?thesis by blast
      qed
      with same v show ?thesis by simp
    qed
  qed
  from pid samples size subjects show ?thesis by blast
qed

text \<open>
  C4 as stated fails on numeric text with a minus sign: from the example exports the
  pipeline returns one record, with \<open>samples\<close> -5 and \<open>subjects\<close> -3.
\<close>

theorem negative_numeric_fields_counterexample:
  "map (\<lambda>rec. (rec ''projectId'', rec ''samples'', rec ''subjects''))
     (case fst (getIngestedWorkspaces exampleExports (\<lambda>studyId. Inr JUndefined) (\<lambda>workspaces a b. workspaces)) of
        Inl e \<Rightarrow> [] | Inr workspaces \<Rightarrow> workspaces) =
   [(Some (JStr ''AN_CCDG_x''), Some (JNum (Fin (- 5))), Some (JNum (Fin (- 3))))]"
  by code_simp

theorem workspace_record_invariant_witness:
  "\<exists>workspaces out rec.
     getIngestedWorkspaces exampleExports (\<lambda>studyId. Inr JUndefined) (\<lambda>workspaces a b. workspaces) =
       (Inr workspaces, out) \<and>
     rec \<in> set workspaces \<and>
     rec ''projectId'' = Some (JStr ''AN_CCDG_x'') \<and>
     rec ''samples'' = Some (JNum (Fin (- 5))) \<and> negative (Fin (- 5)) \<and>
     (\<exists>content. exampleExports fileTerraDataIngestionCounts = Some content \<and> CHR ''-'' \<in> set content) \<and>
     rec ''size'' = Some (JNum (Fin 0))"
proof -
  let ?run = "getIngestedWorkspaces exampleExports (\<lambda>studyId. Inr JUndefined) (\<lambda>workspaces a b. workspaces)"
  have ev: "map (\<lambda>rec. (rec ''projectId'', rec ''samples'', rec ''size''))
     (case fst ?run of Inl e \<Rightarrow> [] | Inr workspaces \<Rightarrow> workspaces) =
   [(Some (JStr ''AN_CCDG_x''), Some (JNum (Fin (- 5))), Some (JNum (Fin 0)))]"
    by code_simp
  then obtain workspaces where fst_run: "fst ?run = Inr workspaces"
    by (cases "fst ?run") auto
  with ev obtain rec where ws: "workspaces = [rec]"
    and fields: "rec ''projectId'' = Some (JStr ''AN_CCDG_x'')"
      "rec ''samples'' = Some (JNum (Fin (- 5)))" "rec ''size'' = Some (JNum (Fin 0))"
    by auto
  have run: "?run = (Inr workspaces, snd ?run)"
    using fst_run by (simp add: prod_eq_iff)
  have mem: "rec \<in> set workspaces"
    by (simp add: ws)
  from workspace_record_invariant [OF run _ mem] fields(2)
  have "\<exists>content. exampleExports fileTerraDataIngestionCounts = Some content \<and> CHR ''-'' \<in> set content"
    by auto
  with run mem fields show ?thesis
    by (intro exI [of _ workspaces] exI [of _ "snd ?run"] exI [of _ rec]) simp
qed

end
